theory Spec2Isabelle
  imports Complex_Main "HOL-Library.Multiset"
begin

section \<open>Scalars, tensors and Python errors\<close>

text \<open>
  The agent of \<^verbatim>\<open>agent/ppo.py\<close> computes with torch floats. A float is modelled as a
  \<open>real option\<close>: \<open>Some x\<close> is the number \<open>x\<close> and \<open>None\<close> is NaN, which every arithmetic
  operation propagates. Rounding and overflow to infinity are not modelled. A tensor is the
  list of its elements (the losses reduce over all elements, so only the element count of a
  shape matters).
\<close>

type_synonym scalar = "real option"
type_synonym tensor = "scalar list"

datatype error = ValueError | IndexError | RuntimeError

definition bind :: "error + 'a \<Rightarrow> ('a \<Rightarrow> error + 'b) \<Rightarrow> error + 'b" where
  "bind m f = (case m of Inl e \<Rightarrow> Inl e | Inr x \<Rightarrow> f x)"

definition lift2 :: "(real \<Rightarrow> real \<Rightarrow> real) \<Rightarrow> scalar \<Rightarrow> scalar \<Rightarrow> scalar" where
  "lift2 f a b =
     (case a of None \<Rightarrow> None
      | Some x \<Rightarrow> (case b of None \<Rightarrow> None | Some y \<Rightarrow> Some (f x y)))"

definition fadd :: "scalar \<Rightarrow> scalar \<Rightarrow> scalar" where
  "fadd = lift2 (+)"

definition fsub :: "scalar \<Rightarrow> scalar \<Rightarrow> scalar" where
  "fsub = lift2 (-)"

definition fmul :: "scalar \<Rightarrow> scalar \<Rightarrow> scalar" where
  "fmul = lift2 (*)"

definition fmin :: "scalar \<Rightarrow> scalar \<Rightarrow> scalar" where
  "fmin = lift2 min"

definition fmax :: "scalar \<Rightarrow> scalar \<Rightarrow> scalar" where
  "fmax = lift2 max"

text \<open>
  Division: \<open>0 / 0\<close> is NaN. A non-zero number divided by zero is an infinity, which this
  model has no value for; it is mapped to \<open>None\<close> as well. The only division of the source
  outside of the means is the advantage normalisation, whose divisor is never zero
  (lemma \<open>normalize_divisor_nonzero\<close> below).
\<close>

definition fdiv :: "scalar \<Rightarrow> scalar \<Rightarrow> scalar" where
  "fdiv a b =
     (case a of None \<Rightarrow> None
      | Some x \<Rightarrow> (case b of None \<Rightarrow> None
                   | Some y \<Rightarrow> if y = 0 then None else Some (x / y)))"

definition fneg :: "scalar \<Rightarrow> scalar" where
  "fneg a = map_option uminus a"

definition fexp :: "scalar \<Rightarrow> scalar" where
  "fexp a = map_option exp a"

definition fsquare :: "scalar \<Rightarrow> scalar" where
  "fsquare a = map_option (\<lambda>x. x ^ 2) a"

text \<open>\<^verbatim>\<open>torch.clamp(x, lo, hi)\<close> is \<open>min (max x lo) hi\<close>; where \<open>lo > hi\<close> the result is \<open>hi\<close>.\<close>

definition clamp :: "real \<Rightarrow> real \<Rightarrow> real \<Rightarrow> real" where
  "clamp x lo hi = min (max x lo) hi"

definition fclamp :: "scalar \<Rightarrow> scalar \<Rightarrow> scalar \<Rightarrow> scalar" where
  "fclamp a lo hi = fmin (fmax a lo) hi"

text \<open>
  An elementwise binary operation on two tensors, with torch's broadcasting: equal element
  counts combine pointwise, a one-element tensor is stretched, anything else raises
  \<^verbatim>\<open>RuntimeError\<close>.
\<close>

definition broadcast2 :: "('a \<Rightarrow> 'b \<Rightarrow> 'c) \<Rightarrow> 'a list \<Rightarrow> 'b list \<Rightarrow> error + 'c list" where
  "broadcast2 f xs ys =
     (if length xs = length ys then Inr (map2 f xs ys)
      else if length xs = 1 then Inr (map (f (hd xs)) ys)
      else if length ys = 1 then Inr (map (\<lambda>x. f x (hd ys)) xs)
      else Inl RuntimeError)"

definition torch_exp :: "tensor \<Rightarrow> tensor" where
  "torch_exp xs = map fexp xs"

definition torch_clamp :: "tensor \<Rightarrow> real \<Rightarrow> real \<Rightarrow> tensor" where
  "torch_clamp xs lo hi = map (\<lambda>x. fclamp x (Some lo) (Some hi)) xs"

text \<open>\<^verbatim>\<open>torch.clamp\<close> with tensor bounds; the two bounds have the same shape here.\<close>

definition torch_clamp_tensor :: "tensor \<Rightarrow> tensor \<Rightarrow> tensor \<Rightarrow> error + tensor" where
  "torch_clamp_tensor xs los his =
     broadcast2 (\<lambda>x (lo, hi). fclamp x lo hi) xs (zip los his)"

definition torch_min :: "tensor \<Rightarrow> tensor \<Rightarrow> error + tensor" where
  "torch_min xs ys = broadcast2 fmin xs ys"

text \<open>
  \<^verbatim>\<open>torch.mean\<close>: NaN on an empty tensor (\<open>0 / 0\<close>) and on a tensor with a NaN element.
\<close>

definition torch_mean :: "tensor \<Rightarrow> scalar" where
  "torch_mean xs =
     (case those xs of None \<Rightarrow> None
      | Some vs \<Rightarrow> if vs = [] then None else Some (sum_list vs / real (length vs)))"

text \<open>
  \<^verbatim>\<open>Tensor.std()\<close>: the sample standard deviation with Bessel's correction (torch's
  default \<^verbatim>\<open>correction=1\<close>): the sum of squared deviations is divided by \<open>n - 1\<close>, so
  the result is NaN (\<open>0 / 0\<close>) for a tensor of one element, and for an empty one.
\<close>

definition torch_std :: "tensor \<Rightarrow> scalar" where
  "torch_std xs =
     (case those xs of None \<Rightarrow> None
      | Some vs \<Rightarrow>
          if length vs \<le> 1 then None
          else Some (sqrt (sum_list (map (\<lambda>v. (v - sum_list vs / real (length vs)) ^ 2) vs)
                           / real (length vs - 1))))"

section \<open>The agent\<close>

text \<open>
  The fields of \<^verbatim>\<open>PPOAgent\<close> that the update reads or writes. \<open>'n\<close> is the type of a
  network (its parameters), \<open>'o\<close> the state of the Adam optimizer.
\<close>

record ('n, 'o) agent =
  actor_net :: 'n
  value_net :: 'n
  optimizer :: 'o
  clip_range :: real
  value_coef :: real
  value_clip_range :: "real option"
  entropy_coef :: real
  update_epochs :: int
  mini_batch_size :: int
  train_step :: int

section \<open>The losses\<close>

definition get_clipped_surrogate_loss ::
  "('n, 'o, 'z) agent_scheme \<Rightarrow> tensor \<Rightarrow> tensor \<Rightarrow> tensor \<Rightarrow> error + scalar" where
  "get_clipped_surrogate_loss self log_prob old_log_prob advantage =
     bind (broadcast2 fsub log_prob old_log_prob) (\<lambda>log_ratio.
       let ratio = torch_exp log_ratio in
       bind (broadcast2 fmul advantage ratio) (\<lambda>pg_loss1.
         bind (broadcast2 fmul advantage
                 (torch_clamp ratio (1 - clip_range self) (1 + clip_range self))) (\<lambda>pg_loss2.
           bind (torch_min pg_loss1 pg_loss2) (\<lambda>m.
             Inr (fneg (torch_mean m))))))"

definition get_value_loss ::
  "('n, 'o, 'z) agent_scheme \<Rightarrow> tensor \<Rightarrow> tensor \<Rightarrow> tensor \<Rightarrow> error + scalar" where
  "get_value_loss self value old_value returns =
     bind (case value_clip_range self of
             Some c \<Rightarrow> torch_clamp_tensor value
                         (map (\<lambda>v. fsub v (Some c)) old_value)
                         (map (\<lambda>v. fadd v (Some c)) old_value)
           | None \<Rightarrow> Inr value) (\<lambda>value_clipped.
       bind (broadcast2 fsub value returns) (\<lambda>d1.
         let vf_loss1 = map fsquare d1 in
         bind (broadcast2 fsub value_clipped returns) (\<lambda>d2.
           let vf_loss2 = map fsquare d2 in
           bind (torch_min vf_loss1 vf_loss2) (\<lambda>vf_loss.
             Inr (torch_mean vf_loss)))))"

definition get_entropy_loss :: "tensor \<Rightarrow> scalar" where
  "get_entropy_loss entropy = fneg (torch_mean entropy)"

section \<open>One optimisation step\<close>

text \<open>
  The collaborators of the agent whose code is outside \<^verbatim>\<open>agent/ppo.py\<close> are parameters
  of the model:
  \<^item> \<open>evaluate_actions\<close>: \<^verbatim>\<open>actor_net.evaluate_actions(state, action)\<close>, the pair of the
    log-probabilities and the entropies under the given actor network;
  \<^item> \<open>value_forward\<close>: \<^verbatim>\<open>value_net(state)\<close> under the given value network;
  \<^item> \<open>optimizer_step\<close>: \<^verbatim>\<open>optimizer.zero_grad(); loss.backward();
    clip_grad_norm_(parameters, max_norm); optimizer.step()\<close>. The loss it differentiates is
    given as a function of the two networks (the computation graph), next to the maximal
    gradient norm, the optimizer's state and the current networks;
  \<^item> \<open>shuffle\<close>: \<^verbatim>\<open>np.random.shuffle\<close>, with the state of the random generator passed
    through;
  \<^item> \<open>make_dataset\<close>: \<^verbatim>\<open>buffer.make_dataset()\<close>, which returns the dataset and the buffer
    as the call leaves it;
  \<^item> \<open>orthogonal\<close>: \<^verbatim>\<open>nn.init.orthogonal_(weight, gain)\<close>, again with the random state;
  \<^item> \<open>load_state_dict\<close>: \<^verbatim>\<open>net.load_state_dict(torch.load(path))\<close>.
\<close>

text \<open>
  \<^verbatim>\<open>buffer.make_dataset()\<close> returns a tuple of six arrays: the states, the actions, the
  old log-probabilities, the old values, the advantages and the returns.
\<close>

type_synonym ('s, 'a) dataset = "'s list \<times> 'a list \<times> tensor \<times> tensor \<times> tensor \<times> tensor"

record buffer =
  size_buf :: int
  num_envs :: int

record ('n, 'o, 's, 'a, 'g, 'b, 'w, 'f) externals =
  evaluate_actions :: "'n \<Rightarrow> 's list \<Rightarrow> 'a list \<Rightarrow> tensor \<times> tensor"
  value_forward :: "'n \<Rightarrow> 's list \<Rightarrow> tensor"
  optimizer_step :: "('n \<times> 'n \<Rightarrow> error + scalar) \<Rightarrow> real \<Rightarrow> 'o \<Rightarrow> 'n \<times> 'n \<Rightarrow> 'o \<times> 'n \<times> 'n"
  shuffle :: "'g \<Rightarrow> nat list \<Rightarrow> nat list \<times> 'g"
  make_dataset :: "'b buffer_scheme \<Rightarrow> ('s, 'a) dataset \<times> 'b buffer_scheme"
  orthogonal :: "'w \<Rightarrow> real \<Rightarrow> 'g \<Rightarrow> 'w \<times> 'g"
  load_state_dict :: "'n \<Rightarrow> 'f \<Rightarrow> 'n"

type_synonym ('s, 'a) batch = "'s list \<times> 'a list \<times> tensor \<times> tensor \<times> tensor \<times> tensor"

record ret_dict =
  policy_loss :: scalar
  value_loss :: scalar
  entropy_loss :: scalar

definition get_new_log_prob_entropy_value ::
  "('n, 'o, 's, 'a, 'g, 'b, 'w, 'f) externals \<Rightarrow> 'n \<times> 'n \<Rightarrow> 's list \<Rightarrow> 'a list
     \<Rightarrow> tensor \<times> tensor \<times> tensor" where
  "get_new_log_prob_entropy_value ext nets state action =
     (let (log_prob, entropy) = evaluate_actions ext (fst nets) state action
      in (log_prob, entropy, value_forward ext (snd nets) state))"

text \<open>
  Line 141 of \<^verbatim>\<open>update_step\<close>:
  \<^verbatim>\<open>advantage = (advantage - advantage.mean()) / (advantage.std() + 1e-8)\<close>.
  The mean and the standard deviation are zero-dimensional tensors, which broadcast over
  the elements; the result is a new tensor.
\<close>

definition normalize_divisor :: "tensor \<Rightarrow> scalar" where
  "normalize_divisor advantage = fadd (torch_std advantage) (Some (1 / 10 ^ 8))"

definition normalize_advantage :: "tensor \<Rightarrow> tensor" where
  "normalize_advantage advantage =
     map (\<lambda>a. fdiv (fsub a (torch_mean advantage)) (normalize_divisor advantage)) advantage"

text \<open>
  Lines 138 to 152 of \<^verbatim>\<open>update_step\<close>, as a function of the two networks: the three
  losses and the total loss. At the agent's own networks it is the forward pass of the
  step; as a function it is the graph that \<^verbatim>\<open>loss.backward()\<close> differentiates.
\<close>

definition forward_loss ::
  "('n, 'o, 's, 'a, 'g, 'b, 'w, 'f) externals \<Rightarrow> ('n, 'o, 'z) agent_scheme \<Rightarrow> ('s, 'a) batch
     \<Rightarrow> 'n \<times> 'n \<Rightarrow> error + (scalar \<times> scalar \<times> scalar \<times> scalar)" where
  "forward_loss ext self batch nets =
     (case batch of (state, action, old_log_prob, old_value, advantage, returns) \<Rightarrow>
        let advantage = normalize_advantage advantage;
            (log_prob, entropy, value) = get_new_log_prob_entropy_value ext nets state action
        in bind (get_clipped_surrogate_loss self log_prob old_log_prob advantage) (\<lambda>policy_loss.
             bind (get_value_loss self value old_value returns) (\<lambda>value_loss.
               let entropy_loss = get_entropy_loss entropy;
                   loss = fadd (fadd policy_loss (fmul (Some (value_coef self)) value_loss))
                               (fmul (Some (entropy_coef self)) entropy_loss)
               in Inr (policy_loss, value_loss, entropy_loss, loss))))"

definition update_step ::
  "('n, 'o, 's, 'a, 'g, 'b, 'w, 'f) externals \<Rightarrow> ('n, 'o, 'z) agent_scheme \<Rightarrow> ('s, 'a) batch
     \<Rightarrow> error + (('n, 'o, 'z) agent_scheme \<times> ret_dict)" where
  "update_step ext self batch =
     bind (forward_loss ext self batch (actor_net self, value_net self))
       (\<lambda>(policy_loss, value_loss, entropy_loss, loss).
          let (opt, actor, value) =
                optimizer_step ext
                  (\<lambda>nets. bind (forward_loss ext self batch nets) (\<lambda>(_, _, _, l). Inr l))
                  (1 / 2) (optimizer self) (actor_net self, value_net self)
          in Inr (self\<lparr>actor_net := actor, value_net := value, optimizer := opt,
                       train_step := train_step self + 1\<rparr>,
                  \<lparr>policy_loss = policy_loss, value_loss = value_loss,
                   entropy_loss = entropy_loss\<rparr>))"

section \<open>The update over the rollout buffer\<close>

text \<open>\<^verbatim>\<open>np.arange(n)\<close>: the indices \<open>0, \<dots>, n - 1\<close>; empty when \<open>n \<le> 0\<close>.\<close>

definition np_arange :: "int \<Rightarrow> nat list" where
  "np_arange n = [0..<nat n]"

text \<open>
  \<^verbatim>\<open>range(start, stop, step)\<close>: \<^verbatim>\<open>ValueError\<close> for a zero step, and the empty range when
  the step leads away from \<open>stop\<close>.
\<close>

definition py_range :: "int \<Rightarrow> int \<Rightarrow> int \<Rightarrow> error + int list" where
  "py_range start stop step =
     (if step = 0 then Inl ValueError
      else if 0 < step
        then Inr (map (\<lambda>k. start + int k * step) [0..<nat ((stop - start + step - 1) div step)])
        else Inr (map (\<lambda>k. start + int k * step) [0..<nat ((start - stop - step - 1) div (- step))]))"

text \<open>
  \<^verbatim>\<open>xs[start:end]\<close>: a negative bound counts from the end, and both bounds are cut to the
  list.
\<close>

definition slice_bound :: "int \<Rightarrow> int \<Rightarrow> int" where
  "slice_bound n i = (if i < 0 then max 0 (i + n) else min i n)"

definition py_slice :: "'x list \<Rightarrow> int \<Rightarrow> int \<Rightarrow> 'x list" where
  "py_slice xs start end =
     (let n = int (length xs); lo = slice_bound n start; hi = slice_bound n end
      in take (nat (hi - lo)) (drop (nat lo) xs))"

text \<open>
  \<^verbatim>\<open>xs[idx]\<close> for an array of indices \<open>idx\<close>: a new array of the selected rows, and
  \<^verbatim>\<open>IndexError\<close> when an index is out of range. The indices of the update come from
  \<^verbatim>\<open>np.arange\<close> and are never negative.
\<close>

definition index_select :: "'x list \<Rightarrow> nat list \<Rightarrow> error + 'x list" where
  "index_select xs idx =
     (if list_all (\<lambda>i. i < length xs) idx then Inr (map (\<lambda>i. xs ! i) idx) else Inl IndexError)"

definition make_batch :: "('s, 'a) dataset \<Rightarrow> nat list \<Rightarrow> error + ('s, 'a) batch" where
  "make_batch ds minibatch_idx =
     (case ds of (states, actions, old_log_probs, old_values, advantages, returns) \<Rightarrow>
        bind (index_select states minibatch_idx) (\<lambda>s.
        bind (index_select actions minibatch_idx) (\<lambda>a.
        bind (index_select old_log_probs minibatch_idx) (\<lambda>olp.
        bind (index_select old_values minibatch_idx) (\<lambda>ov.
        bind (index_select advantages minibatch_idx) (\<lambda>adv.
        bind (index_select returns minibatch_idx) (\<lambda>r.
          Inr (s, a, olp, ov, adv, r))))))))"

text \<open>\<^verbatim>\<open>np.mean\<close> of a list of floats: NaN for the empty list.\<close>

definition np_mean :: "scalar list \<Rightarrow> scalar" where
  "np_mean xs =
     (case those xs of None \<Rightarrow> None
      | Some vs \<Rightarrow> if vs = [] then None else Some (sum_list vs / real (length vs)))"

type_synonym loss_lists = "scalar list \<times> scalar list \<times> scalar list"

text \<open>The inner loop of \<^verbatim>\<open>update\<close>, over the start positions of one epoch \<open>e\<close>.\<close>

fun minibatch_loop ::
  "('n, 'o, 's, 'a, 'g, 'b, 'w, 'f) externals \<Rightarrow> ('s, 'a) dataset \<Rightarrow> nat list \<Rightarrow> int \<Rightarrow> int list
     \<Rightarrow> ('n, 'o, 'z) agent_scheme \<times> loss_lists
     \<Rightarrow> error + (('n, 'o, 'z) agent_scheme \<times> loss_lists)" where
  "minibatch_loop ext ds indices e [] st = Inr st"
| "minibatch_loop ext ds indices e (start # starts) (self, policy_losses, value_losses, entropy_losses) =
     (let end = start + mini_batch_size self;
          minibatch_idx = py_slice indices start end
      in bind (make_batch ds minibatch_idx) (\<lambda>batch.
         bind (update_step ext self batch) (\<lambda>(self, ret).
           minibatch_loop ext ds indices e starts
             (if e = update_epochs self - 1
              then (self, policy_losses @ [policy_loss ret], value_losses @ [value_loss ret],
                    entropy_losses @ [entropy_loss ret])
              else (self, policy_losses, value_losses, entropy_losses)))))"

text \<open>
  The outer loop, over the epochs. \<open>indices\<close> is shuffled in place, so each epoch
  shuffles the order the previous one left.
\<close>

fun epoch_loop ::
  "('n, 'o, 's, 'a, 'g, 'b, 'w, 'f) externals \<Rightarrow> ('s, 'a) dataset \<Rightarrow> int \<Rightarrow> int list
     \<Rightarrow> ('n, 'o, 'z) agent_scheme \<times> nat list \<times> 'g \<times> loss_lists
     \<Rightarrow> error + (('n, 'o, 'z) agent_scheme \<times> nat list \<times> 'g \<times> loss_lists)" where
  "epoch_loop ext ds buffer_size [] st = Inr st"
| "epoch_loop ext ds buffer_size (e # es) (self, indices, g, losses) =
     (let (indices, g) = shuffle ext g indices
      in bind (py_range 0 buffer_size (mini_batch_size self)) (\<lambda>starts.
         bind (minibatch_loop ext ds indices e starts (self, losses)) (\<lambda>(self, losses).
           epoch_loop ext ds buffer_size es (self, indices, g, losses))))"

text \<open>
  \<^verbatim>\<open>update(buffer)\<close>. The result is the dictionary of the mean losses, the agent, the
  buffer and the random state after the call. \<^verbatim>\<open>range(update_epochs)\<close> is
  \<^verbatim>\<open>range(0, update_epochs, 1)\<close>.
\<close>

definition update ::
  "('n, 'o, 's, 'a, 'g, 'b, 'w, 'f) externals \<Rightarrow> ('n, 'o, 'z) agent_scheme \<Rightarrow> 'b buffer_scheme \<Rightarrow> 'g
     \<Rightarrow> error + (ret_dict \<times> ('n, 'o, 'z) agent_scheme \<times> 'b buffer_scheme \<times> 'g)" where
  "update ext self buffer g =
     (let buffer_size = size_buf buffer * num_envs buffer;
          indices = np_arange buffer_size;
          (ds, buffer) = make_dataset ext buffer
      in bind (py_range 0 (update_epochs self) 1) (\<lambda>epochs.
         bind (epoch_loop ext ds buffer_size epochs (self, indices, g, ([], [], [])))
           (\<lambda>(self, indices, g, (policy_losses, value_losses, entropy_losses)).
              Inr (\<lparr>policy_loss = np_mean policy_losses, value_loss = np_mean value_losses,
                    entropy_loss = np_mean entropy_losses\<rparr>, self, buffer, g))))"

section \<open>Construction, orthogonal initialisation and loading\<close>

text \<open>
  A torch module as far as \<^verbatim>\<open>init_weights\<close> tells modules apart: a \<^verbatim>\<open>Linear\<close> or a
  \<^verbatim>\<open>Conv2d\<close> layer with its weight and its optional bias, a container of child modules
  (\<^verbatim>\<open>nn.Sequential\<close>), or any other module without children (an activation). Of a
  network only the attribute \<^verbatim>\<open>fcs\<close> is read, the children of its layer stack.
\<close>

datatype 'w nn_module =
    Linear 'w "tensor option"
  | Conv2d 'w "tensor option"
  | Other
  | Container "'w nn_module list"

record 'w net =
  fcs :: "'w nn_module list"

definition init_weights ::
  "('n, 'o, 's, 'a, 'g, 'b, 'w, 'f) externals \<Rightarrow> real \<Rightarrow> 'w nn_module \<Rightarrow> 'g \<Rightarrow> 'w nn_module \<times> 'g" where
  "init_weights ext gain m g =
     (case m of
        Linear weight bias \<Rightarrow>
          (let (weight, g) = orthogonal ext weight gain g
           in (Linear weight (map_option (map (\<lambda>_. Some 0)) bias), g))
      | Conv2d weight bias \<Rightarrow>
          (let (weight, g) = orthogonal ext weight gain g
           in (Conv2d weight (map_option (map (\<lambda>_. Some 0)) bias), g))
      | _ \<Rightarrow> (m, g))"

text \<open>
  \<^verbatim>\<open>module.apply(fn)\<close>: \<open>fn\<close> is applied to every child, recursively and in order, and
  then to the module itself.
\<close>

fun apply_module ::
  "('w nn_module \<Rightarrow> 'g \<Rightarrow> 'w nn_module \<times> 'g) \<Rightarrow> 'w nn_module \<Rightarrow> 'g \<Rightarrow> 'w nn_module \<times> 'g"
and apply_children ::
  "('w nn_module \<Rightarrow> 'g \<Rightarrow> 'w nn_module \<times> 'g) \<Rightarrow> 'w nn_module list \<Rightarrow> 'g
     \<Rightarrow> 'w nn_module list \<times> 'g" where
  "apply_module fn (Container ms) g =
     (let (ms, g) = apply_children fn ms g in fn (Container ms) g)"
| "apply_module fn (Linear w b) g = fn (Linear w b) g"
| "apply_module fn (Conv2d w b) g = fn (Conv2d w b) g"
| "apply_module fn Other g = fn Other g"
| "apply_children fn [] g = ([], g)"
| "apply_children fn (m # ms) g =
     (let (m, g) = apply_module fn m g;
          (ms, g) = apply_children fn ms g
      in (m # ms, g))"

definition children :: "'w nn_module \<Rightarrow> 'w nn_module list" where
  "children m = (case m of Container ms \<Rightarrow> ms | _ \<Rightarrow> [])"

text \<open>
  \<^verbatim>\<open>ortho_init\<close>. The dictionary \<^verbatim>\<open>module_gains\<close> has four entries, visited in the order
  they were written. A slice \<^verbatim>\<open>fcs[:4]\<close> or \<^verbatim>\<open>fcs[4:]\<close> is a new container over the same
  child modules, so what \<^verbatim>\<open>apply\<close> does to the children is done to the network.
\<close>

definition ortho_init ::
  "('n, 'o, 's, 'a, 'g, 'b, 'w, 'f) externals \<Rightarrow> (('w, 'y) net_scheme, 'o, 'z) agent_scheme \<Rightarrow> 'g
     \<Rightarrow> (('w, 'y) net_scheme, 'o, 'z) agent_scheme \<times> 'g" where
  "ortho_init ext self g =
     (let actor_fcs = fcs (actor_net self);
          value_fcs = fcs (value_net self);
          (a1, g) = apply_module (init_weights ext (sqrt 2)) (Container (take 4 actor_fcs)) g;
          (v1, g) = apply_module (init_weights ext (sqrt 2)) (Container (take 4 value_fcs)) g;
          (a2, g) = apply_module (init_weights ext (1 / 100)) (Container (drop 4 actor_fcs)) g;
          (v2, g) = apply_module (init_weights ext 1) (Container (drop 4 value_fcs)) g
      in (self\<lparr>actor_net := (actor_net self)\<lparr>fcs := children a1 @ children a2\<rparr>,
                value_net := (value_net self)\<lparr>fcs := children v1 @ children v2\<rparr>\<rparr>, g))"

text \<open>
  \<^verbatim>\<open>__init__\<close>, given the two networks and the optimizer it constructs. The fields
  \<^verbatim>\<open>tau\<close>, \<^verbatim>\<open>gamma\<close> and \<^verbatim>\<open>device\<close> are not read by the update and are left out.
\<close>

definition init ::
  "('n, 'o, 's, 'a, 'g, 'b, 'w, 'f) externals \<Rightarrow> ('w, 'y) net_scheme \<Rightarrow> ('w, 'y) net_scheme \<Rightarrow> 'o
     \<Rightarrow> real \<Rightarrow> real option \<Rightarrow> real \<Rightarrow> real \<Rightarrow> int \<Rightarrow> int \<Rightarrow> 'g
     \<Rightarrow> (('w, 'y) net_scheme, 'o) agent \<times> 'g" where
  "init ext value actor opt clip_range' value_clip_range' value_coef' entropy_coef'
        update_epochs' mini_batch_size' g =
     ortho_init ext
       \<lparr>actor_net = actor, value_net = value, optimizer = opt, clip_range = clip_range',
        value_coef = value_coef', value_clip_range = value_clip_range',
        entropy_coef = entropy_coef', update_epochs = update_epochs',
        mini_batch_size = mini_batch_size', train_step = 0\<rparr> g"

text \<open>\<^verbatim>\<open>load\<close>, given the contents of the two checkpoint files.\<close>

definition load ::
  "('n, 'o, 's, 'a, 'g, 'b, 'w, 'f) externals \<Rightarrow> ('n, 'o, 'z) agent_scheme \<Rightarrow> 'f \<times> 'f
     \<Rightarrow> ('n, 'o, 'z) agent_scheme" where
  "load ext self files =
     (let self = self\<lparr>value_net := load_state_dict ext (value_net self) (fst files)\<rparr>
      in self\<lparr>actor_net := load_state_dict ext (actor_net self) (snd files)\<rparr>)"

section \<open>Specification of the minibatch schedule\<close>

text \<open>
  The notions the claims about \<^verbatim>\<open>update\<close> are stated with. \<open>chunks k xs\<close> cuts a list into
  consecutive pieces of \<open>k\<close> elements, the last one possibly shorter. \<open>calls_in_order\<close>
  calls \<open>update_step\<close> once for each list of indices, in order, on the rows of the dataset
  at these indices, and collects the dictionaries the calls return. \<open>shuffle_n\<close> shuffles
  \<open>n\<close> times in a row, and \<open>epoch_order k\<close> is the order of the indices in the epoch \<open>k\<close>
  (counted from \<open>0\<close>). \<open>minibatches\<close> lists the slices that the inner loop of \<^verbatim>\<open>update\<close>
  takes from such an order: for each start position of \<^verbatim>\<open>range(0, buffer_size, m)\<close> with
  \<open>m > 0\<close>, the slice from there to \<open>m\<close> positions further.
\<close>

function chunks :: "nat \<Rightarrow> 'x list \<Rightarrow> 'x list list" where
  "chunks k xs = (if k = 0 \<or> xs = [] then [] else take k xs # chunks k (drop k xs))"
  by pat_completeness auto
termination
  by (relation "measure (\<lambda>(k, xs). length xs)") auto

fun calls_in_order ::
  "('n, 'o, 's, 'a, 'g, 'b, 'w, 'f) externals \<Rightarrow> ('s, 'a) dataset \<Rightarrow> nat list list
     \<Rightarrow> ('n, 'o, 'z) agent_scheme \<Rightarrow> error + (('n, 'o, 'z) agent_scheme \<times> ret_dict list)" where
  "calls_in_order ext ds [] self = Inr (self, [])"
| "calls_in_order ext ds (idx # idxs) self =
     bind (make_batch ds idx) (\<lambda>batch.
     bind (update_step ext self batch) (\<lambda>(self, ret).
     bind (calls_in_order ext ds idxs self) (\<lambda>(self, rets). Inr (self, ret # rets))))"

fun shuffle_n ::
  "('n, 'o, 's, 'a, 'g, 'b, 'w, 'f) externals \<Rightarrow> nat \<Rightarrow> nat list \<Rightarrow> 'g \<Rightarrow> nat list \<times> 'g" where
  "shuffle_n ext 0 indices g = (indices, g)"
| "shuffle_n ext (Suc n) indices g =
     (let (indices, g) = shuffle ext g indices in shuffle_n ext n indices g)"

definition epoch_order ::
  "('n, 'o, 's, 'a, 'g, 'b, 'w, 'f) externals \<Rightarrow> nat list \<Rightarrow> 'g \<Rightarrow> nat \<Rightarrow> nat list" where
  "epoch_order ext indices g k = fst (shuffle_n ext (Suc k) indices g)"

definition minibatches :: "int \<Rightarrow> int \<Rightarrow> nat list \<Rightarrow> nat list list" where
  "minibatches buffer_size m order =
     map (\<lambda>start. py_slice order start (start + m))
       (map (\<lambda>k. int k * m) [0..<nat ((buffer_size + m - 1) div m)])"

text \<open>
  Specification of the orthogonal initialisation: \<open>initialised ext gain m m'\<close> says that
  \<open>m'\<close> is the module \<open>m\<close> in which every \<^verbatim>\<open>Linear\<close> and \<^verbatim>\<open>Conv2d\<close> layer, at any depth, has
  as its weight a result of \<^verbatim>\<open>nn.init.orthogonal_\<close> with the gain \<open>gain\<close> (at some state \<open>h\<close>
  of the random generator) and as its bias, where it has one, the same number of zeros;
  everything else is as in \<open>m\<close>.
\<close>

inductive initialised ::
  "('n, 'o, 's, 'a, 'g, 'b, 'w, 'f) externals \<Rightarrow> real \<Rightarrow> 'w nn_module \<Rightarrow> 'w nn_module \<Rightarrow> bool"
  for ext gain where
  init_Linear:
    "initialised ext gain (Linear w b)
       (Linear (fst (orthogonal ext w gain h)) (map_option (map (\<lambda>_. Some 0)) b))"
| init_Conv2d:
    "initialised ext gain (Conv2d w b)
       (Conv2d (fst (orthogonal ext w gain h)) (map_option (map (\<lambda>_. Some 0)) b))"
| init_Other:
    "initialised ext gain Other Other"
| init_Container:
    "list_all2 (initialised ext gain) ms ms' \<Longrightarrow>
     initialised ext gain (Container ms) (Container ms')"
  monos list_all2_mono

section \<open>Example inputs\<close>

text \<open>
  An agent with the default hyper-parameters of the constructor, a dataset of four
  transitions, and stand-ins for the collaborators: networks that answer with constant
  tensors, an optimizer that only counts its steps, a shuffle that reverses the indices,
  and an initialiser that writes the gain in place of the weight.
\<close>

definition example_agent :: "(unit, int) agent" where
  "example_agent =
     \<lparr>actor_net = (), value_net = (), optimizer = 0, clip_range = 1 / 5, value_coef = 1 / 2,
      value_clip_range = None, entropy_coef = 1 / 100, update_epochs = 10,
      mini_batch_size = 512, train_step = 0\<rparr>"

definition example_dataset :: "(int, int) dataset" where
  "example_dataset =
     ([10, 11, 12, 13], [20, 21, 22, 23], [Some 0, Some 0, Some 0, Some 0],
      [Some 0, Some 0, Some 0, Some 0], [Some 1, Some 1, Some 1, Some 1],
      [Some 1, Some 1, Some 1, Some 1])"

definition example_ext :: "(unit, int, int, int, int, unit, real, unit) externals" where
  "example_ext =
     \<lparr>evaluate_actions = (\<lambda>n s a. (map (\<lambda>_. Some 0) s, map (\<lambda>_. Some 1) s)),
      value_forward = (\<lambda>n s. map (\<lambda>_. Some 0) s),
      optimizer_step = (\<lambda>loss max_norm opt nets. (opt + 1, nets)),
      shuffle = (\<lambda>g xs. (rev xs, g + 1)),
      make_dataset = (\<lambda>b. (example_dataset, b)),
      orthogonal = (\<lambda>w gain g. (gain, g + 1)),
      load_state_dict = (\<lambda>n f. n)\<rparr>"

definition example_buffer :: buffer where
  "example_buffer = \<lparr>size_buf = 2, num_envs = 2\<rparr>"

text \<open>The example agent with two epochs, and minibatches of three or of two transitions.\<close>

definition small_agent :: "(unit, int) agent" where
  "small_agent = example_agent\<lparr>update_epochs := 2, mini_batch_size := 3\<rparr>"

definition pair_agent :: "(unit, int) agent" where
  "pair_agent = example_agent\<lparr>update_epochs := 2, mini_batch_size := 2\<rparr>"

text \<open>
  An agent whose networks are small stacks of layers, before and after the initialisation
  with the stand-in initialiser.
\<close>

definition example_net_agent :: "(real net, int) agent" where
  "example_net_agent =
     \<lparr>actor_net = \<lparr>fcs = [Linear 0 (Some [Some 5]), Other, Linear 0 None, Other,
                            Linear 0 (Some [Some 7, Some 8])]\<rparr>,
      value_net = \<lparr>fcs = [Linear 0 (Some [Some 5]), Other, Container [Conv2d 0 (Some [Some 6])],
                            Other, Linear 0 (Some [Some 9])]\<rparr>,
      optimizer = 0, clip_range = 1 / 5, value_coef = 1 / 2,
      value_clip_range = None, entropy_coef = 1 / 100, update_epochs = 10,
      mini_batch_size = 512, train_step = 0\<rparr>"

definition example_net_agent_initialised :: "(real net, int) agent" where
  "example_net_agent_initialised =
     \<lparr>actor_net = \<lparr>fcs = [Linear (sqrt 2) (Some [Some 0]), Other, Linear (sqrt 2) None, Other,
                            Linear (1 / 100) (Some [Some 0, Some 0])]\<rparr>,
      value_net = \<lparr>fcs = [Linear (sqrt 2) (Some [Some 0]), Other,
                            Container [Conv2d (sqrt 2) (Some [Some 0])],
                            Other, Linear 1 (Some [Some 0])]\<rparr>,
      optimizer = 0, clip_range = 1 / 5, value_coef = 1 / 2,
      value_clip_range = None, entropy_coef = 1 / 100, update_epochs = 10,
      mini_batch_size = 512, train_step = 0\<rparr>"

text \<open>
  Collaborators whose losses differ from call to call: the two networks are counters that
  the optimizer advances by one, the value network answers with its counter and the
  entropy is the actor's counter. The returns of the dataset are zero, so the call number
  \<open>k\<close> (from \<open>0\<close>) has the value loss \<open>k\<^sup>2\<close> and the entropy loss \<open>- k\<close>.
\<close>

definition counting_dataset :: "(int, int) dataset" where
  "counting_dataset =
     ([10, 11, 12, 13], [20, 21, 22, 23], [Some 0, Some 0, Some 0, Some 0],
      [Some 0, Some 0, Some 0, Some 0], [Some 1, Some 1, Some 1, Some 1],
      [Some 0, Some 0, Some 0, Some 0])"

definition counting_ext :: "(int, int, int, int, int, unit, real, unit) externals" where
  "counting_ext =
     \<lparr>evaluate_actions = (\<lambda>n s a. (map (\<lambda>_. Some 0) s, map (\<lambda>_. Some (real_of_int n)) s)),
      value_forward = (\<lambda>n s. map (\<lambda>_. Some (real_of_int n)) s),
      optimizer_step = (\<lambda>loss max_norm opt (a, v). (opt + 1, a + 1, v + 1)),
      shuffle = (\<lambda>g xs. (rev xs, g + 1)),
      make_dataset = (\<lambda>b. (counting_dataset, b)),
      orthogonal = (\<lambda>w gain g. (gain, g + 1)),
      load_state_dict = (\<lambda>n f. n)\<rparr>"

definition counting_agent :: "(int, int) agent" where
  "counting_agent =
     \<lparr>actor_net = 0, value_net = 0, optimizer = 0, clip_range = 1 / 5, value_coef = 1 / 2,
      value_clip_range = None, entropy_coef = 1 / 100, update_epochs = 2,
      mini_batch_size = 2, train_step = 0\<rparr>"

section \<open>Properties of the losses\<close>

lemmas scalar_defs =
  fneg_def fmin_def fmax_def fmul_def fadd_def fexp_def fsub_def fclamp_def fsquare_def
  fdiv_def lift2_def

lemma bind_Inr [simp]: "bind (Inr x) f = f x"
  by (simp add: bind_def)

lemma bind_Inl [simp]: "bind (Inl e) f = Inl e"
  by (simp add: bind_def)

lemma broadcast2_same_length:
  "length xs = length ys \<Longrightarrow> broadcast2 f xs ys = Inr (map2 f xs ys)"
  by (simp add: broadcast2_def)

lemma fmin_idem: "fmin a a = a"
  by (cases a) (simp_all add: fmin_def lift2_def)

lemma fmul_commute: "fmul a b = fmul b a"
  by (cases a; cases b) (simp_all add: fmul_def lift2_def)

lemma map2_same: "map2 f xs xs = map (\<lambda>x. f x x) xs"
  by (induction xs) simp_all

lemma those_map_Some: "those (map Some xs) = Some xs"
  by (induction xs) simp_all

lemma torch_mean_numbers:
  "vs \<noteq> [] \<Longrightarrow> torch_mean (map Some vs) = Some (sum_list vs / real (length vs))"
  by (simp add: torch_mean_def those_map_Some)

lemma length_torch_exp [simp]: "length (torch_exp xs) = length xs"
  by (simp add: torch_exp_def)

lemma length_torch_clamp [simp]: "length (torch_clamp xs lo hi) = length xs"
  by (simp add: torch_clamp_def)

subsection \<open>The clipped surrogate loss\<close>

lemma surrogate_elementwise:
  assumes "length log_prob = length old_log_prob" and "length old_log_prob = length advantage"
  shows "get_clipped_surrogate_loss self log_prob old_log_prob advantage =
     Inr (fneg (torch_mean (map (\<lambda>(lp, olp, A).
        fmin (fmul (fexp (fsub lp olp)) A)
             (fmul (fclamp (fexp (fsub lp olp)) (Some (1 - clip_range self))
                      (Some (1 + clip_range self))) A))
       (zip log_prob (zip old_log_prob advantage)))))"
proof -
  let ?ratio = "torch_exp (map2 fsub log_prob old_log_prob)"
  have m: "map2 fmin (map2 fmul advantage ?ratio)
             (map2 fmul advantage (torch_clamp ?ratio (1 - clip_range self) (1 + clip_range self)))
         = map (\<lambda>(lp, olp, A).
        fmin (fmul (fexp (fsub lp olp)) A)
             (fmul (fclamp (fexp (fsub lp olp)) (Some (1 - clip_range self))
                      (Some (1 + clip_range self))) A))
       (zip log_prob (zip old_log_prob advantage))"
    using assms
    by (induction log_prob old_log_prob advantage rule: list_induct3)
       (simp_all add: torch_clamp_def torch_exp_def fmul_commute)
  show ?thesis
    using assms
    by (simp add: get_clipped_surrogate_loss_def broadcast2_same_length
        torch_min_def Let_def m)
qed

lemma surrogate_terms_numbers:
  assumes "length lp = length olp" and "length olp = length adv"
  shows "map (\<lambda>(l, ol, A).
        fmin (fmul (fexp (fsub l ol)) A)
             (fmul (fclamp (fexp (fsub l ol)) (Some lo) (Some hi)) A))
       (zip (map Some lp) (zip (map Some olp) (map Some adv)))
     = map Some (map (\<lambda>(l, ol, A). min (exp (l - ol) * A) (clamp (exp (l - ol)) lo hi * A))
         (zip lp (zip olp adv)))"
  using assms
  by (induction lp olp adv rule: list_induct3)
     (simp_all add: scalar_defs clamp_def)

text \<open>
  Claim C1. For tensors \<open>log_prob\<close>, \<open>old_log_prob\<close> and \<open>advantage\<close> of equal shape,
  \<open>get_clipped_surrogate_loss\<close> returns the negated mean over the elements of
  \<open>min (r * A, clip (r, 1 - clip_range, 1 + clip_range) * A)\<close> with
  \<open>r = exp (log_prob - old_log_prob)\<close> and \<open>A\<close> the advantage. The first conjunct states it
  for all tensors, NaN elements included; the second spells it out in real arithmetic for
  non-empty tensors of numbers.
\<close>

theorem get_clipped_surrogate_loss_formula:
  assumes "length log_prob = length old_log_prob" and "length old_log_prob = length advantage"
  shows "get_clipped_surrogate_loss self log_prob old_log_prob advantage =
     Inr (fneg (torch_mean (map (\<lambda>(lp, olp, A).
        fmin (fmul (fexp (fsub lp olp)) A)
             (fmul (fclamp (fexp (fsub lp olp)) (Some (1 - clip_range self))
                      (Some (1 + clip_range self))) A))
       (zip log_prob (zip old_log_prob advantage)))))
   \<and> (\<forall>lps olps advs.
        log_prob = map Some lps \<and> old_log_prob = map Some olps \<and> advantage = map Some advs
        \<and> lps \<noteq> [] \<longrightarrow>
        get_clipped_surrogate_loss self log_prob old_log_prob advantage =
          Inr (Some (- (sum_list (map (\<lambda>(lp, olp, A).
                 min (exp (lp - olp) * A)
                     (clamp (exp (lp - olp)) (1 - clip_range self) (1 + clip_range self) * A))
               (zip lps (zip olps advs)))
             / real (length lps)))))"
proof (intro conjI allI impI)
  show g: "get_clipped_surrogate_loss self log_prob old_log_prob advantage =
     Inr (fneg (torch_mean (map (\<lambda>(lp, olp, A).
        fmin (fmul (fexp (fsub lp olp)) A)
             (fmul (fclamp (fexp (fsub lp olp)) (Some (1 - clip_range self))
                      (Some (1 + clip_range self))) A))
       (zip log_prob (zip old_log_prob advantage)))))"
    using assms by (rule surrogate_elementwise)
  fix lps olps advs
  assume h: "log_prob = map Some lps \<and> old_log_prob = map Some olps \<and> advantage = map Some advs
        \<and> lps \<noteq> []"
  with assms have len: "length lps = length olps" "length olps = length advs"
    by auto
  let ?terms = "map (\<lambda>(lp, olp, A).
                 min (exp (lp - olp) * A)
                     (clamp (exp (lp - olp)) (1 - clip_range self) (1 + clip_range self) * A))
               (zip lps (zip olps advs))"
  have ne: "?terms \<noteq> []" and n: "length ?terms = length lps"
    using h len by auto
  show "get_clipped_surrogate_loss self log_prob old_log_prob advantage =
          Inr (Some (- (sum_list ?terms / real (length lps))))"
    unfolding g using h torch_mean_numbers [OF ne] n
    by (simp add: surrogate_terms_numbers [OF len] fneg_def)
qed

theorem get_clipped_surrogate_loss_formula_witness:
  "length [Some 0 :: scalar] = length [Some 0 :: scalar]
   \<and> length [Some 0 :: scalar] = length [Some 2 :: scalar]
   \<and> get_clipped_surrogate_loss example_agent [Some 0] [Some 0] [Some 2] = Inr (Some (- 2))"
proof -
  have "get_clipped_surrogate_loss example_agent [Some 0] [Some 0] [Some 2]
          = Inr (fneg (torch_mean (map (\<lambda>(lp, olp, A).
        fmin (fmul (fexp (fsub lp olp)) A)
             (fmul (fclamp (fexp (fsub lp olp)) (Some (1 - clip_range example_agent))
                 (Some (1 + clip_range example_agent))) A))
       (zip [Some 0] (zip [Some 0] [Some 2])))))"
    using get_clipped_surrogate_loss_formula [of "[Some 0]" "[Some 0]" "[Some 2]" example_agent]
    by simp
  then show ?thesis
    by (simp add: example_agent_def torch_mean_def scalar_defs)
qed

subsection \<open>The value loss\<close>

lemma value_loss_unclipped_elementwise:
  assumes "value_clip_range self = None" and "length value = length returns"
  shows "get_value_loss self value old_value returns =
     Inr (torch_mean (map (\<lambda>(v, r). fsquare (fsub v r)) (zip value returns)))"
proof -
  have "map2 fmin (map fsquare (map2 fsub value returns)) (map fsquare (map2 fsub value returns))
          = map (\<lambda>(v, r). fsquare (fsub v r)) (zip value returns)"
    unfolding map2_same fmin_idem by (simp add: case_prod_unfold)
  then show ?thesis
    using assms
    by (simp add: get_value_loss_def broadcast2_same_length torch_min_def Let_def)
qed

lemma squared_errors_numbers:
  "map (\<lambda>(v, r). fsquare (fsub v r)) (zip (map Some vs) (map Some rs))
     = map Some (map (\<lambda>(v, r). (v - r) ^ 2) (zip vs rs))"
  by (simp add: zip_map_map scalar_defs case_prod_unfold)

text \<open>
  Claim C3. When \<open>value_clip_range\<close> is \<open>None\<close>, \<open>get_value_loss\<close> returns the plain mean
  squared error \<open>mean ((value - returns)\<^sup>2)\<close> for tensors \<open>value\<close> and \<open>returns\<close> of equal
  shape, and the result does not depend on \<open>old_value\<close> (whatever its shape). The last
  conjunct spells the mean out in real arithmetic for non-empty tensors of numbers.
\<close>

theorem get_value_loss_unclipped:
  assumes "value_clip_range self = None" and "length value = length returns"
  shows "get_value_loss self value old_value returns =
           Inr (torch_mean (map (\<lambda>(v, r). fsquare (fsub v r)) (zip value returns)))
       \<and> (\<forall>old_value'. get_value_loss self value old_value' returns =
                           get_value_loss self value old_value returns)
       \<and> (\<forall>vs rs. value = map Some vs \<and> returns = map Some rs \<and> vs \<noteq> [] \<longrightarrow>
             get_value_loss self value old_value returns =
               Inr (Some (sum_list (map (\<lambda>(v, r). (v - r) ^ 2) (zip vs rs)) / real (length vs))))"
proof (intro conjI allI impI)
  show g: "get_value_loss self value old_value returns =
           Inr (torch_mean (map (\<lambda>(v, r). fsquare (fsub v r)) (zip value returns)))"
    using assms by (rule value_loss_unclipped_elementwise)
  show "get_value_loss self value old_value' returns = get_value_loss self value old_value returns"
    for old_value'
    using assms by (simp add: value_loss_unclipped_elementwise)
  fix vs rs
  assume h: "value = map Some vs \<and> returns = map Some rs \<and> vs \<noteq> []"
  with assms have len: "length vs = length rs" by auto
  let ?sq = "map (\<lambda>(v, r). (v - r) ^ 2) (zip vs rs)"
  have ne: "?sq \<noteq> []" and n: "length ?sq = length vs"
    using h len by auto
  show "get_value_loss self value old_value returns =
               Inr (Some (sum_list ?sq / real (length vs)))"
    unfolding g using h torch_mean_numbers [OF ne] n
    by (simp add: squared_errors_numbers)
qed

theorem get_value_loss_unclipped_witness:
  "value_clip_range example_agent = None \<and> length [Some 3 :: scalar] = length [Some 1 :: scalar]
   \<and> get_value_loss example_agent [Some 3] [Some 7] [Some 1] = Inr (Some 4)
   \<and> get_value_loss example_agent [Some 3] [] [Some 1] = Inr (Some 4)"
proof -
  have n: "value_clip_range example_agent = None"
    by (simp add: example_agent_def)
  have l: "length [Some 3 :: scalar] = length [Some 1 :: scalar]"
    by simp
  have a: "get_value_loss example_agent [Some 3] [Some 7] [Some 1]
            = Inr (torch_mean (map (\<lambda>(v, r). fsquare (fsub v r)) (zip [Some 3] [Some 1])))"
    and b: "get_value_loss example_agent [Some 3] [] [Some 1]
            = get_value_loss example_agent [Some 3] [Some 7] [Some 1]"
    using get_value_loss_unclipped [OF n l, of "[Some 7]"] by blast+
  show ?thesis
    unfolding b unfolding a using n by (simp add: torch_mean_def scalar_defs)
qed

text \<open>
  With a clip range \<open>c\<close> the code takes, element by element, the \<^emph>\<open>minimum\<close> of the
  unclipped and the clipped squared error (\<^verbatim>\<open>torch.min(vf_loss1, vf_loss2)\<close>).
\<close>

lemma value_loss_clipped_elementwise:
  assumes "value_clip_range self = Some c"
    and "length value = length old_value" and "length old_value = length returns"
  shows "get_value_loss self value old_value returns =
     Inr (torch_mean (map (\<lambda>(v, ov, r).
        fmin (fsquare (fsub v r))
             (fsquare (fsub (fclamp v (fsub ov (Some c)) (fadd ov (Some c))) r)))
       (zip value (zip old_value returns))))"
proof -
  let ?clipped = "map2 (\<lambda>x (lo, hi). fclamp x lo hi) value
                    (zip (map (\<lambda>v. fsub v (Some c)) old_value) (map (\<lambda>v. fadd v (Some c)) old_value))"
  have m: "map2 fmin (map fsquare (map2 fsub value returns)) (map fsquare (map2 fsub ?clipped returns))
         = map (\<lambda>(v, ov, r).
        fmin (fsquare (fsub v r))
             (fsquare (fsub (fclamp v (fsub ov (Some c)) (fadd ov (Some c))) r)))
       (zip value (zip old_value returns))"
    using assms(2,3)
    by (induction "value" old_value returns rule: list_induct3) simp_all
  have "get_value_loss self value old_value returns
          = Inr (torch_mean (map2 fmin (map fsquare (map2 fsub value returns))
                                      (map fsquare (map2 fsub ?clipped returns))))"
    using assms
    by (simp add: get_value_loss_def torch_clamp_tensor_def broadcast2_same_length torch_min_def
        Let_def del: map_map)
  then show ?thesis
    by (simp only: m)
qed

text \<open>
  Claim C4 says that with \<open>value_clip_range = c\<close> the loss is the mean of the
  \<^emph>\<open>maximum\<close> of the unclipped squared error \<open>(value - returns)\<^sup>2\<close> and the clipped one
  \<open>(clip (value, old_value - c, old_value + c) - returns)\<^sup>2\<close>, which is PPO's value
  clipping. The code computes the minimum. At \<open>c = 1/2\<close>, \<open>value = [2]\<close>,
  \<open>old_value = [0]\<close> and \<open>returns = [0]\<close> the unclipped error is \<open>4\<close> and the clipped one
  \<open>1/4\<close>: the code returns \<open>1/4\<close>, the claimed loss is \<open>4\<close>.
\<close>

theorem get_value_loss_clipped_takes_min:
  "get_value_loss (example_agent\<lparr>value_clip_range := Some (1 / 2)\<rparr>) [Some 2] [Some 0] [Some 0]
     = Inr (Some (1 / 4))
   \<and> torch_mean (map (\<lambda>(v, ov, r).
        fmax (fsquare (fsub v r))
             (fsquare (fsub (fclamp v (fsub ov (Some (1 / 2))) (fadd ov (Some (1 / 2)))) r)))
       (zip [Some 2] (zip [Some 0] [Some 0]))) = Some 4"
proof -
  have "get_value_loss (example_agent\<lparr>value_clip_range := Some (1 / 2)\<rparr>) [Some 2] [Some 0] [Some 0]
     = Inr (Some (1 / 4))"
    by (simp add: value_loss_clipped_elementwise [where c = "1 / 2"] torch_mean_def scalar_defs
        power2_eq_square)
  then show ?thesis
    by (simp add: torch_mean_def scalar_defs power2_eq_square)
qed

subsection \<open>The advantage normalisation\<close>

lemma torch_std_numbers:
  "2 \<le> length vs \<Longrightarrow>
   torch_std (map Some vs) =
     Some (sqrt (sum_list (map (\<lambda>v. (v - sum_list vs / real (length vs)) ^ 2) vs)
                 / real (length vs - 1)))"
  by (simp add: torch_std_def those_map_Some)

lemma sum_list_squares_nonneg: "0 \<le> sum_list (map (\<lambda>v. (v - m) ^ 2) vs)" for m :: real
  by (induction vs) simp_all

lemma torch_std_nonneg: "torch_std xs = Some s \<Longrightarrow> 0 \<le> s"
  by (auto simp: torch_std_def sum_list_squares_nonneg split: option.splits if_splits)

text \<open>Whenever the divisor is a number it is strictly positive, so never zero.\<close>

lemma normalize_divisor_positive: "normalize_divisor xs = Some d \<Longrightarrow> 0 < d"
  by (cases "torch_std xs") (auto simp: normalize_divisor_def scalar_defs dest!: torch_std_nonneg)

lemma normalize_divisor_nonzero: "normalize_divisor xs \<noteq> Some 0"
  using normalize_divisor_positive [of xs 0] by auto

text \<open>
  On a minibatch of at least two numbers the normalisation is defined: the standard
  deviation is a number \<open>s \<ge> 0\<close>, and every advantage \<open>a\<close> becomes
  \<open>(a - mean) / (s + 1e-8)\<close>.
\<close>

lemma normalize_advantage_numbers:
  assumes "2 \<le> length vs"
  shows "\<exists>s. torch_std (map Some vs) = Some s \<and> 0 < s + 1 / 10 ^ 8 \<and>
     normalize_advantage (map Some vs) =
       map Some (map (\<lambda>a. (a - sum_list vs / real (length vs)) / (s + 1 / 10 ^ 8)) vs)"
proof -
  obtain s where s: "torch_std (map Some vs) = Some s"
    using assms by (simp add: torch_std_numbers)
  then have pos: "0 < s + 1 / 10 ^ 8"
    using torch_std_nonneg [OF s] by (simp add: add_nonneg_pos)
  have ne: "vs \<noteq> []" using assms by auto
  have "normalize_advantage (map Some vs) =
       map Some (map (\<lambda>a. (a - sum_list vs / real (length vs)) / (s + 1 / 10 ^ 8)) vs)"
    using pos by (simp add: normalize_advantage_def normalize_divisor_def s torch_mean_numbers [OF ne]
        scalar_defs)
  with s pos show ?thesis by blast
qed

lemma equal_advantages_normalize_to_zero:
  "normalize_advantage [Some a, Some a] = [Some 0, Some 0]"
  by (simp add: normalize_advantage_def normalize_divisor_def torch_std_def torch_mean_def scalar_defs)

text \<open>
  Claim C6 says that \<open>update_step\<close> replaces the advantage by
  \<open>(advantage - mean) / (std + 1e-8)\<close>, that the divisor is strictly positive because of
  the addend \<open>1e-8\<close>, and that the normalisation is therefore defined even when every
  advantage of the minibatch is equal. On a minibatch of a single transition every
  advantage is equal, but \<^verbatim>\<open>advantage.std()\<close> is NaN there (Bessel's correction divides by
  \<open>n - 1 = 0\<close>), not \<open>0\<close>: the divisor is NaN, the normalised advantage is NaN, and so is
  the policy loss. Such a minibatch is the last one of an epoch whenever the buffer holds
  one transition more than a multiple of \<open>mini_batch_size\<close>.
\<close>

theorem normalize_single_advantage_is_nan:
  "torch_std [Some 1] = None \<and> normalize_divisor [Some 1] = None
   \<and> normalize_advantage [Some 1] = [None]
   \<and> get_clipped_surrogate_loss example_agent [Some 0] [Some 0] (normalize_advantage [Some 1])
       = Inr None"
  by (simp add: torch_std_def normalize_divisor_def normalize_advantage_def torch_mean_def
      get_clipped_surrogate_loss_def broadcast2_def torch_min_def torch_exp_def torch_clamp_def
      scalar_defs)

section \<open>Properties of one optimisation step\<close>

lemma bind_eq_Inr: "bind m f = Inr y \<longleftrightarrow> (\<exists>x. m = Inr x \<and> f x = Inr y)"
  by (cases m) simp_all

lemma forward_loss_total:
  assumes "forward_loss ext self batch nets = Inr (p, v, e, l)"
  shows "l = fadd (fadd p (fmul (Some (value_coef self)) v)) (fmul (Some (entropy_coef self)) e)"
  using assms
  by (auto simp: forward_loss_def Let_def bind_eq_Inr split: prod.splits)

lemma forward_loss_entropy:
  assumes "forward_loss ext self (state, action, old_log_prob, old_value, advantage, returns) nets
             = Inr (p, v, e, l)"
  shows "e = fneg (torch_mean (snd (evaluate_actions ext (fst nets) state action)))"
  using assms
  by (auto simp: forward_loss_def get_new_log_prob_entropy_value_def get_entropy_loss_def Let_def
      bind_eq_Inr split: prod.splits)

lemma update_step_Inr:
  assumes "update_step ext self batch = Inr (self', ret)"
  shows "\<exists>p v e l. forward_loss ext self batch (actor_net self, value_net self) = Inr (p, v, e, l)
     \<and> ret = \<lparr>policy_loss = p, value_loss = v, entropy_loss = e\<rparr>
     \<and> self' = self\<lparr>actor_net := fst (snd (optimizer_step ext
                  (\<lambda>nets. bind (forward_loss ext self batch nets) (\<lambda>(_, _, _, l). Inr l))
                  (1 / 2) (optimizer self) (actor_net self, value_net self))),
                 value_net := snd (snd (optimizer_step ext
                  (\<lambda>nets. bind (forward_loss ext self batch nets) (\<lambda>(_, _, _, l). Inr l))
                  (1 / 2) (optimizer self) (actor_net self, value_net self))),
                 optimizer := fst (optimizer_step ext
                  (\<lambda>nets. bind (forward_loss ext self batch nets) (\<lambda>(_, _, _, l). Inr l))
                  (1 / 2) (optimizer self) (actor_net self, value_net self)),
                 train_step := train_step self + 1\<rparr>"
proof -
  obtain q where f: "forward_loss ext self batch (actor_net self, value_net self) = Inr q"
    using assms by (auto simp: update_step_def bind_eq_Inr)
  obtain p v e l where q: "q = (p, v, e, l)"
    by (cases q) auto
  show ?thesis
    using assms by (auto simp: update_step_def f q Let_def case_prod_beta)
qed

text \<open>The larger the mean entropy, the smaller the entropy loss.\<close>

lemma get_entropy_loss_antimono:
  assumes "torch_mean e1 = Some m1" and "torch_mean e2 = Some m2" and "m1 \<le> m2"
  shows "\<exists>l1 l2. get_entropy_loss e1 = Some l1 \<and> get_entropy_loss e2 = Some l2 \<and> l2 \<le> l1"
  using assms by (simp add: get_entropy_loss_def fneg_def)

lemma example_forward_loss:
  "forward_loss example_ext example_agent
     ([0, 1], [0, 1], [Some 0, Some 0], [Some 0, Some 0], [Some 1, Some 1], [Some 1, Some 1]) nets
   = Inr (Some 0, Some 1, Some (- 1), Some (49 / 100))"
  by (simp add: forward_loss_def example_ext_def example_agent_def
      get_new_log_prob_entropy_value_def normalize_advantage_def normalize_divisor_def
      torch_std_def torch_mean_def get_clipped_surrogate_loss_def get_value_loss_def
      get_entropy_loss_def broadcast2_def torch_min_def torch_exp_def torch_clamp_def
      scalar_defs Let_def)

lemma example_update_step:
  "update_step example_ext example_agent
     ([0, 1], [0, 1], [Some 0, Some 0], [Some 0, Some 0], [Some 1, Some 1], [Some 1, Some 1])
   = Inr (example_agent\<lparr>optimizer := 1, train_step := 1\<rparr>,
          \<lparr>policy_loss = Some 0, value_loss = Some 1, entropy_loss = Some (- 1)\<rparr>)"
  by (simp add: update_step_def example_forward_loss)
     (simp add: example_ext_def example_agent_def)

text \<open>
  Claim C5. In \<open>update_step\<close> the loss that is optimised is
  \<open>policy_loss + value_coef * value_loss + entropy_coef * entropy_loss\<close>, where
  \<open>entropy_loss\<close>, returned by \<open>get_entropy_loss\<close>, is the negated mean of the entropy
  tensor. The optimizer is handed a function \<open>loss\<close> of the networks that is this
  combination of the three losses of the forward pass at every network (and the error of
  the forward pass where it raises); at the agent's own networks its value is the
  combination of the three losses the step returns.
\<close>

theorem update_step_total_loss:
  assumes "update_step ext self (state, action, old_log_prob, old_value, advantage, returns)
             = Inr (self', ret)"
  shows "\<exists>loss.
      (\<forall>nets. loss nets =
         (case forward_loss ext self (state, action, old_log_prob, old_value, advantage, returns) nets of
            Inl err \<Rightarrow> Inl err
          | Inr (p, v, e, l) \<Rightarrow>
              Inr (fadd (fadd p (fmul (Some (value_coef self)) v))
                        (fmul (Some (entropy_coef self)) e))))
    \<and> (optimizer self', actor_net self', value_net self') =
         optimizer_step ext loss (1 / 2) (optimizer self) (actor_net self, value_net self)
    \<and> loss (actor_net self, value_net self) =
         Inr (fadd (fadd (policy_loss ret) (fmul (Some (value_coef self)) (value_loss ret)))
                   (fmul (Some (entropy_coef self)) (entropy_loss ret)))
    \<and> entropy_loss ret =
         fneg (torch_mean (snd (evaluate_actions ext (actor_net self) state action)))
    \<and> entropy_loss ret = get_entropy_loss (snd (evaluate_actions ext (actor_net self) state action))"
proof -
  let ?batch = "(state, action, old_log_prob, old_value, advantage, returns)"
  let ?loss = "\<lambda>nets. bind (forward_loss ext self ?batch nets) (\<lambda>(_, _, _, l). Inr l)"
  obtain p v e l where
    f: "forward_loss ext self ?batch (actor_net self, value_net self) = Inr (p, v, e, l)"
    and r: "ret = \<lparr>policy_loss = p, value_loss = v, entropy_loss = e\<rparr>"
    and s: "self' = self\<lparr>actor_net := fst (snd (optimizer_step ext ?loss
                  (1 / 2) (optimizer self) (actor_net self, value_net self))),
                 value_net := snd (snd (optimizer_step ext ?loss
                  (1 / 2) (optimizer self) (actor_net self, value_net self))),
                 optimizer := fst (optimizer_step ext ?loss
                  (1 / 2) (optimizer self) (actor_net self, value_net self)),
                 train_step := train_step self + 1\<rparr>"
    using update_step_Inr [OF assms] by blast
  have 1: "?loss nets =
         (case forward_loss ext self ?batch nets of
            Inl err \<Rightarrow> Inl err
          | Inr (p, v, e, l) \<Rightarrow>
              Inr (fadd (fadd p (fmul (Some (value_coef self)) v))
                        (fmul (Some (entropy_coef self)) e)))" for nets
  proof (cases "forward_loss ext self ?batch nets")
    case (Inl err)
    then show ?thesis by simp
  next
    case (Inr q)
    obtain p' v' e' l' where q: "q = (p', v', e', l')"
      by (cases q) auto
    with Inr forward_loss_total [of ext self ?batch nets p' v' e' l'] show ?thesis
      by simp
  qed
  have 2: "(optimizer self', actor_net self', value_net self') =
         optimizer_step ext ?loss (1 / 2) (optimizer self) (actor_net self, value_net self)"
    by (simp add: s)
  have 3: "?loss (actor_net self, value_net self) =
         Inr (fadd (fadd (policy_loss ret) (fmul (Some (value_coef self)) (value_loss ret)))
                   (fmul (Some (entropy_coef self)) (entropy_loss ret)))"
    unfolding 1 by (simp add: f r)
  have 4: "entropy_loss ret =
         fneg (torch_mean (snd (evaluate_actions ext (actor_net self) state action)))"
    using forward_loss_entropy [OF f] by (simp add: r)
  show ?thesis
  proof (intro exI [of _ ?loss] conjI allI)
    show "entropy_loss ret = get_entropy_loss (snd (evaluate_actions ext (actor_net self) state action))"
      using 4 by (simp add: get_entropy_loss_def)
  qed (fact 1 2 3 4)+
qed

theorem update_step_total_loss_witness:
  "update_step example_ext example_agent
     ([0, 1], [0, 1], [Some 0, Some 0], [Some 0, Some 0], [Some 1, Some 1], [Some 1, Some 1])
   = Inr (example_agent\<lparr>optimizer := 1, train_step := 1\<rparr>,
          \<lparr>policy_loss = Some 0, value_loss = Some 1, entropy_loss = Some (- 1)\<rparr>)
   \<and> (\<exists>loss. loss ((), ()) = Inr (Some (49 / 100))
        \<and> (1, (), ()) = optimizer_step example_ext loss (1 / 2) 0 ((), ()))"
proof -
  obtain loss where
    "(optimizer (example_agent\<lparr>optimizer := 1, train_step := 1\<rparr>),
      actor_net (example_agent\<lparr>optimizer := 1, train_step := 1\<rparr>),
      value_net (example_agent\<lparr>optimizer := 1, train_step := 1\<rparr>)) =
         optimizer_step example_ext loss (1 / 2) (optimizer example_agent)
           (actor_net example_agent, value_net example_agent)"
    and "loss (actor_net example_agent, value_net example_agent) =
         Inr (fadd (fadd (policy_loss \<lparr>policy_loss = Some 0, value_loss = Some 1, entropy_loss = Some (- 1)\<rparr>)
                (fmul (Some (value_coef example_agent))
                  (value_loss \<lparr>policy_loss = Some 0, value_loss = Some 1, entropy_loss = Some (- 1)\<rparr>)))
                   (fmul (Some (entropy_coef example_agent))
                  (entropy_loss \<lparr>policy_loss = Some 0, value_loss = Some 1, entropy_loss = Some (- 1)\<rparr>)))"
    using update_step_total_loss [OF example_update_step] by blast
  then have "loss ((), ()) = Inr (Some (49 / 100))
        \<and> (1, (), ()) = optimizer_step example_ext loss (1 / 2) 0 ((), ())"
    by (simp add: example_agent_def scalar_defs)
  with example_update_step show ?thesis by blast
qed

section \<open>Properties of the update\<close>

subsection \<open>Chunks, ranges and slices\<close>

declare chunks.simps [simp del]

lemma chunks_Nil [simp]: "chunks k [] = []"
  by (simp add: chunks.simps)

lemma chunks_step:
  "0 < k \<Longrightarrow> xs \<noteq> [] \<Longrightarrow> chunks k xs = take k xs # chunks k (drop k xs)"
  by (subst chunks.simps) simp

lemma ceil_div_step:
  fixes n k :: nat
  assumes "0 < k" and "0 < n"
  shows "(n + k - 1) div k = Suc ((n - k + k - 1) div k)"
proof (cases "k \<le> n")
  case True
  then have a: "n + k - 1 = (n - 1) + k" and b: "n - k + k - 1 = n - 1"
    using assms by linarith+
  show ?thesis
    unfolding a b using assms(1) by (simp only: div_add_self2)
next
  case False
  then have a: "n + k - 1 = (n - 1) + k" and b: "n - k + k - 1 = k - 1" and c: "n - 1 < k"
    and d: "k - 1 < k"
    using assms by linarith+
  show ?thesis
    unfolding a b using assms(1) c d by (simp only: div_add_self2 div_less)
qed

lemma length_chunks: "0 < k \<Longrightarrow> length (chunks k xs) = (length xs + k - 1) div k"
proof (induction k xs rule: chunks.induct)
  case (1 k xs)
  show ?case
  proof (cases "xs = []")
    case True
    have "(k - 1) div k = 0"
      using 1(2) by (intro div_less) linarith
    with True show ?thesis by simp
  next
    case False
    then have IH: "length (chunks k (drop k xs)) = (length (drop k xs) + k - 1) div k"
      using 1 by blast
    have n: "0 < length xs" using False by blast
    have "length (chunks k xs) = Suc (length (chunks k (drop k xs)))"
      by (simp only: chunks_step [OF 1(2) False] list.size)
    also have "\<dots> = Suc ((length xs - k + k - 1) div k)"
      by (simp only: IH length_drop)
    also have "\<dots> = (length xs + k - 1) div k"
      by (simp only: ceil_div_step [OF 1(2) n])
    finally show ?thesis .
  qed
qed

lemma concat_chunks: "0 < k \<Longrightarrow> concat (chunks k xs) = xs"
proof (induction k xs rule: chunks.induct)
  case (1 k xs)
  then show ?case
    by (cases "xs = []") (simp_all add: chunks_step)
qed

lemma chunks_sizes:
  "0 < k \<Longrightarrow> c \<in> set (chunks k xs) \<Longrightarrow> 0 < length c \<and> length c \<le> k"
proof (induction k xs arbitrary: c rule: chunks.induct)
  case (1 k xs)
  show ?case
  proof (cases "xs = []")
    case True
    with 1(3) show ?thesis by simp
  next
    case False
    have "c = take k xs \<or> c \<in> set (chunks k (drop k xs))"
      using 1(3) by (simp add: chunks_step [OF 1(2) False])
    then show ?thesis
    proof
      assume "c = take k xs"
      then show ?thesis using 1(2) False by simp
    next
      assume "c \<in> set (chunks k (drop k xs))"
      then show ?thesis using 1(1) 1(2) False by blast
    qed
  qed
qed

lemma chunks_nth:
  "0 < k \<Longrightarrow> i < length (chunks k xs) \<Longrightarrow> chunks k xs ! i = take k (drop (i * k) xs)"
proof (induction k xs arbitrary: i rule: chunks.induct)
  case (1 k xs)
  show ?case
  proof (cases "xs = []")
    case True
    with 1(3) show ?thesis by simp
  next
    case False
    note step = chunks_step [OF 1(2) False]
    show ?thesis
    proof (cases i)
      case 0
      then show ?thesis by (simp add: step)
    next
      case (Suc j)
      then have "j < length (chunks k (drop k xs))"
        using 1(3) by (simp add: step)
      then have "chunks k (drop k xs) ! j = take k (drop (j * k) (drop k xs))"
        using 1(1) 1(2) False by blast
      then show ?thesis
        by (simp add: Suc step add.commute)
    qed
  qed
qed

lemma chunks_full:
  assumes "0 < k" and "Suc i < length (chunks k xs)"
  shows "length (chunks k xs ! i) = k"
proof -
  have "Suc (Suc i) \<le> (length xs + k - 1) div k"
    using assms by (simp add: length_chunks)
  then have "Suc (Suc i) * k \<le> length xs + k - 1"
    using assms(1) by (simp only: less_eq_div_iff_mult_less_eq)
  then have "i * k + k \<le> length xs"
    by simp
  moreover have "i < length (chunks k xs)"
    using assms(2) by simp
  ultimately show ?thesis
    using assms(1) by (simp add: chunks_nth)
qed

lemma py_range_positive:
  "0 < step \<Longrightarrow>
   py_range 0 stop step = Inr (map (\<lambda>k. int k * step) [0..<nat ((stop + step - 1) div step)])"
  by (simp add: py_range_def)

lemma take_min_length: "take (min k (length ys)) ys = take k ys"
  by (simp add: min_def)

lemma py_slice_nat:
  "py_slice xs (int a) (int a + int k) = take k (drop a xs)"
proof (cases "a \<le> length xs")
  case True
  then have "nat (min (int a + int k) (int (length xs)) - int a) = min k (length xs - a)"
    by linarith
  with True take_min_length [of k "drop a xs"] show ?thesis
    by (simp add: py_slice_def slice_bound_def Let_def min.absorb1)
next
  case False
  then show ?thesis
    by (simp add: py_slice_def slice_bound_def Let_def min.absorb2)
qed

lemma nat_ceil_div:
  "0 < m \<Longrightarrow> nat ((int n + int m - 1) div int m) = (n + m - 1) div m"
proof -
  assume "0 < m"
  then have "int n + int m - 1 = int (n + m - 1)"
    by linarith
  then show ?thesis
    by (simp only: zdiv_int [symmetric] nat_int)
qed

lemma minibatches_are_chunks:
  assumes "0 < m"
  shows "map (\<lambda>start. py_slice xs start (start + int m))
           (map (\<lambda>k. int k * int m) [0..<nat ((int (length xs) + int m - 1) div int m)])
         = chunks m xs"
proof (rule nth_equalityI)
  show len: "length (map (\<lambda>start. py_slice xs start (start + int m))
           (map (\<lambda>k. int k * int m) [0..<nat ((int (length xs) + int m - 1) div int m)]))
        = length (chunks m xs)"
    using assms by (simp add: length_chunks nat_ceil_div)
  fix i
  assume "i < length (map (\<lambda>start. py_slice xs start (start + int m))
           (map (\<lambda>k. int k * int m) [0..<nat ((int (length xs) + int m - 1) div int m)]))"
  then have i: "i < length (chunks m xs)" and i': "i < nat ((int (length xs) + int m - 1) div int m)"
    using len by simp_all
  have "py_slice xs (int i * int m) (int i * int m + int m) = take m (drop (i * m) xs)"
    using py_slice_nat [of xs "i * m" m] by simp
  then show "map (\<lambda>start. py_slice xs start (start + int m))
           (map (\<lambda>k. int k * int m) [0..<nat ((int (length xs) + int m - 1) div int m)]) ! i
        = chunks m xs ! i"
    using i i' assms by (simp add: chunks_nth)
qed

subsection \<open>The loops as calls in order\<close>

lemma update_step_fields:
  assumes "update_step ext self batch = Inr (self', ret)"
  shows "train_step self' = train_step self + 1"
    and "mini_batch_size self' = mini_batch_size self"
    and "update_epochs self' = update_epochs self"
    and "clip_range self' = clip_range self"
    and "value_coef self' = value_coef self"
    and "value_clip_range self' = value_clip_range self"
    and "entropy_coef self' = entropy_coef self"
    and "agent.more self' = agent.more self"
  using update_step_Inr [OF assms] by auto

lemma calls_in_order_fields:
  "calls_in_order ext ds idxs self = Inr (self', rets) \<Longrightarrow>
     train_step self' = train_step self + int (length idxs)
   \<and> length rets = length idxs
   \<and> mini_batch_size self' = mini_batch_size self
   \<and> update_epochs self' = update_epochs self"
proof (induction idxs arbitrary: self self' rets)
  case Nil
  then show ?case by simp
next
  case (Cons idx idxs)
  from Cons.prems obtain batch self1 ret rets1 where
    b: "make_batch ds idx = Inr batch"
    and u: "update_step ext self batch = Inr (self1, ret)"
    and c: "calls_in_order ext ds idxs self1 = Inr (self', rets1)"
    and r: "rets = ret # rets1"
    by (auto simp: bind_eq_Inr)
  from Cons.IH [OF c] update_step_fields(1-3) [OF u] r show ?case
    by simp
qed

lemma calls_in_order_append:
  "calls_in_order ext ds (xs @ ys) self =
     bind (calls_in_order ext ds xs self) (\<lambda>(self1, r1).
     bind (calls_in_order ext ds ys self1) (\<lambda>(self2, r2). Inr (self2, r1 @ r2)))"
proof (induction xs arbitrary: self)
  case Nil
  show ?case
    by (cases "calls_in_order ext ds ys self") auto
next
  case (Cons idx xs)
  show ?case
  proof (cases "make_batch ds idx")
    case (Inl e)
    then show ?thesis by simp
  next
    case b: (Inr batch)
    show ?thesis
    proof (cases "update_step ext self batch")
      case (Inl e)
      with b show ?thesis by simp
    next
      case (Inr p)
      obtain self1 ret where p: "p = (self1, ret)" by (cases p) auto
      show ?thesis
      proof (cases "calls_in_order ext ds xs self1")
        case (Inl e)
        with b Inr p Cons.IH [of self1] show ?thesis by simp
      next
        case c: (Inr q)
        obtain self2 r1 where q: "q = (self2, r1)" by (cases q) auto
        show ?thesis
        proof (cases "calls_in_order ext ds ys self2")
          case (Inl e)
          with b Inr p c q Cons.IH [of self1] show ?thesis by simp
        next
          case (Inr w)
          obtain self3 r2 where w: "w = (self3, r2)" by (cases w) auto
          with b \<open>update_step ext self batch = Inr p\<close> p c q Inr Cons.IH [of self1] show ?thesis
            by simp
        qed
      qed
    qed
  qed
qed

lemma minibatch_loop_calls:
  "minibatch_loop ext ds indices e starts (self, pl, vl, el) =
     bind (calls_in_order ext ds
             (map (\<lambda>start. py_slice indices start (start + mini_batch_size self)) starts) self)
       (\<lambda>(self', rets).
          Inr (if e = update_epochs self - 1
               then (self', pl @ map policy_loss rets, vl @ map value_loss rets,
                     el @ map entropy_loss rets)
               else (self', pl, vl, el)))"
proof (induction starts arbitrary: self pl vl el)
  case Nil
  show ?case by simp
next
  case (Cons start starts)
  let ?idx = "py_slice indices start (start + mini_batch_size self)"
  let ?rest = "map (\<lambda>start. py_slice indices start (start + mini_batch_size self)) starts"
  show ?case
  proof (cases "make_batch ds ?idx")
    case (Inl err)
    then show ?thesis by (simp add: Let_def)
  next
    case b: (Inr batch)
    show ?thesis
    proof (cases "update_step ext self batch")
      case (Inl err)
      with b show ?thesis by (simp add: Let_def)
    next
      case (Inr p)
      obtain self1 ret where p: "p = (self1, ret)" by (cases p) auto
      note u = Inr [unfolded p]
      note f = update_step_fields(2,3) [OF u]
      have IH: "minibatch_loop ext ds indices e starts (self1, pl', vl', el') =
         bind (calls_in_order ext ds ?rest self1)
           (\<lambda>(self', rets).
              Inr (if e = update_epochs self - 1
                   then (self', pl' @ map policy_loss rets, vl' @ map value_loss rets,
                         el' @ map entropy_loss rets)
                   else (self', pl', vl', el')))" for pl' vl' el'
        using Cons.IH [of self1 pl' vl' el'] by (simp only: f)
      have step: "minibatch_loop ext ds indices e (start # starts) (self, pl, vl, el) =
          minibatch_loop ext ds indices e starts
            (if e = update_epochs self - 1
             then (self1, pl @ [policy_loss ret], vl @ [value_loss ret], el @ [entropy_loss ret])
             else (self1, pl, vl, el))"
        by (simp add: Let_def b u f split del: if_split)
      have rhs: "calls_in_order ext ds (?idx # ?rest) self =
          bind (calls_in_order ext ds ?rest self1) (\<lambda>(self', rets). Inr (self', ret # rets))"
        by (simp add: b u)
      have fin: "minibatch_loop ext ds indices e (start # starts) (self, pl, vl, el) =
          bind (calls_in_order ext ds ?rest self1)
           (\<lambda>(self', rets).
              Inr (if e = update_epochs self - 1
                   then (self', (pl @ [policy_loss ret]) @ map policy_loss rets,
                         (vl @ [value_loss ret]) @ map value_loss rets,
                         (el @ [entropy_loss ret]) @ map entropy_loss rets)
                   else (self', pl, vl, el)))"
      proof (cases "e = update_epochs self - 1")
        case True
        then have t: "(e = update_epochs self - 1) = True" by simp
        show ?thesis by (simp only: step t if_True IH)
      next
        case False
        then have t: "(e = update_epochs self - 1) = False" by simp
        show ?thesis by (simp only: step t if_False IH)
      qed
      show ?thesis
        unfolding list.map rhs fin
        by (cases "calls_in_order ext ds ?rest self1") auto
    qed
  qed
qed

lemma shuffle_n_Suc_end:
  "shuffle_n ext (Suc n) indices g =
     (case shuffle_n ext n indices g of (i, g') \<Rightarrow> shuffle ext g' i)"
proof (induction n arbitrary: indices g)
  case 0
  show ?case by (simp split: prod.splits)
next
  case (Suc n)
  obtain i1 g1 where s: "shuffle ext g indices = (i1, g1)" by (cases "shuffle ext g indices")
  show ?case
    using Suc.IH [of i1 g1] by (simp add: s)
qed

lemma epoch_order_Suc:
  "epoch_order ext indices g (Suc k) =
     epoch_order ext (fst (shuffle ext g indices)) (snd (shuffle ext g indices)) k"
  by (simp add: epoch_order_def split: prod.splits)

lemma map_epoch_order_Suc:
  "map (epoch_order ext indices g) [0..<Suc n] =
     fst (shuffle ext g indices)
       # map (epoch_order ext (fst (shuffle ext g indices)) (snd (shuffle ext g indices))) [0..<n]"
proof -
  have "[0..<Suc n] = 0 # map Suc [0..<n]"
    by (simp add: upt_conv_Cons map_Suc_upt del: upt_Suc)
  then show ?thesis
    by (simp add: epoch_order_Suc comp_def del: upt_Suc) (simp add: epoch_order_def split: prod.splits)
qed

lemma map_sum_fst_bind_append:
  "map_sum id fst (bind m (\<lambda>(s, r). Inr (s, f r))) = map_sum id fst m"
  by (cases m) auto

lemma epoch_loop_calls:
  assumes "0 < mini_batch_size self"
  shows "map_sum id fst (epoch_loop ext ds buffer_size es (self, indices, g, L)) =
         map_sum id fst
           (calls_in_order ext ds
              (concat (map (\<lambda>k. minibatches buffer_size (mini_batch_size self)
                                   (epoch_order ext indices g k)) [0..<length es])) self)"
  using assms
proof (induction es arbitrary: self indices g L)
  case Nil
  show ?case by simp
next
  case (Cons e es)
  obtain i1 g1 where s: "shuffle ext g indices = (i1, g1)" by (cases "shuffle ext g indices")
  let ?m = "mini_batch_size self"
  let ?first = "minibatches buffer_size ?m i1"
  let ?rest = "concat (map (\<lambda>k. minibatches buffer_size ?m (epoch_order ext i1 g1 k)) [0..<length es])"
  obtain pl vl el where L: "L = (pl, vl, el)" by (cases L) auto
  have "map (\<lambda>k. minibatches buffer_size ?m (epoch_order ext indices g k)) [0..<length (e # es)]
          = map (minibatches buffer_size ?m) (map (epoch_order ext indices g) [0..<Suc (length es)])"
    by (simp add: comp_def del: upt_Suc)
  also have "\<dots> = map (minibatches buffer_size ?m) (i1 # map (epoch_order ext i1 g1) [0..<length es])"
    using map_epoch_order_Suc [of ext indices g "length es"] by (simp only: s fst_conv snd_conv)
  also have "\<dots> = ?first # map (\<lambda>k. minibatches buffer_size ?m (epoch_order ext i1 g1 k)) [0..<length es]"
    by (simp add: comp_def)
  finally have sched: "concat (map (\<lambda>k. minibatches buffer_size ?m (epoch_order ext indices g k))
                  [0..<length (e # es)]) = ?first @ ?rest"
    by (simp only: concat.simps)
  have loop: "epoch_loop ext ds buffer_size (e # es) (self, indices, g, L) =
      bind (calls_in_order ext ds ?first self) (\<lambda>(self1, rets).
        epoch_loop ext ds buffer_size es
          (self1, i1, g1,
           if e = update_epochs self - 1
           then (pl @ map policy_loss rets, vl @ map value_loss rets, el @ map entropy_loss rets)
           else (pl, vl, el)))"
    using Cons.prems
    by (cases "calls_in_order ext ds ?first self")
       (auto simp: s L py_range_positive minibatch_loop_calls minibatches_def)
  show ?case
  proof (cases "calls_in_order ext ds ?first self")
    case (Inl err)
    then show ?thesis
      unfolding loop sched calls_in_order_append by simp
  next
    case (Inr q)
    obtain self1 rets where q: "q = (self1, rets)" by (cases q) auto
    note c = Inr [unfolded q]
    have m: "mini_batch_size self1 = ?m"
      using calls_in_order_fields [OF c] by simp
    have IH: "map_sum id fst (epoch_loop ext ds buffer_size es (self1, i1, g1, L')) =
         map_sum id fst (calls_in_order ext ds ?rest self1)" for L'
      using Cons.IH [of self1 i1 g1 L'] Cons.prems by (simp only: m)
    show ?thesis
      unfolding loop sched calls_in_order_append
      by (simp only: c bind_Inr prod.case IH map_sum_fst_bind_append)
  qed
qed

lemma py_range_epochs: "py_range 0 E 1 = Inr (map int [0..<nat E])"
  by (simp add: py_range_def)

lemma update_calls:
  assumes "0 < mini_batch_size self"
  shows "map_sum id (\<lambda>(stats, self', buffer', g'). self') (update ext self buffer g) =
         map_sum id fst
           (calls_in_order ext (fst (make_dataset ext buffer))
              (concat (map (\<lambda>k. minibatches (size_buf buffer * num_envs buffer) (mini_batch_size self)
                                   (epoch_order ext (np_arange (size_buf buffer * num_envs buffer)) g k))
                         [0..<nat (update_epochs self)])) self)"
proof -
  let ?N = "size_buf buffer * num_envs buffer"
  obtain ds buffer' where d: "make_dataset ext buffer = (ds, buffer')"
    by (cases "make_dataset ext buffer")
  let ?loop = "epoch_loop ext ds ?N (map int [0..<nat (update_epochs self)])
                 (self, np_arange ?N, g, ([], [], []))"
  have "map_sum id (\<lambda>(stats, self', buffer', g'). self') (update ext self buffer g)
          = map_sum id fst ?loop"
    by (cases ?loop) (auto simp: update_def d py_range_epochs Let_def)
  also have "\<dots> = map_sum id fst
           (calls_in_order ext ds
              (concat (map (\<lambda>k. minibatches ?N (mini_batch_size self)
                                   (epoch_order ext (np_arange ?N) g k))
                         [0..<length (map int [0..<nat (update_epochs self)])])) self)"
    using assms by (rule epoch_loop_calls)
  finally show ?thesis
    by (simp add: d)
qed


lemma shuffle_n_mset:
  assumes "\<And>g xs. mset (fst (shuffle ext g xs)) = mset xs"
  shows "mset (fst (shuffle_n ext n indices g)) = mset indices"
proof (induction n arbitrary: indices g)
  case 0
  show ?case by simp
next
  case (Suc n)
  obtain i1 g1 where s: "shuffle ext g indices = (i1, g1)" by (cases "shuffle ext g indices")
  have "mset i1 = mset indices"
    using assms [of g indices] by (simp add: s)
  with Suc.IH [of i1 g1] show ?case
    by (simp add: s)
qed

lemma epoch_order_mset:
  assumes "\<And>g xs. mset (fst (shuffle ext g xs)) = mset xs"
  shows "mset (epoch_order ext indices g k) = mset indices"
  unfolding epoch_order_def using assms by (rule shuffle_n_mset)

lemma epoch_order_length:
  assumes "\<And>g xs. mset (fst (shuffle ext g xs)) = mset xs"
  shows "length (epoch_order ext indices g k) = length indices"
  using epoch_order_mset [OF assms, of indices g k] by (rule mset_eq_length)

lemma minibatches_chunks:
  assumes "0 < m" and "int (length order) = buffer_size"
  shows "minibatches buffer_size m order = chunks (nat m) order"
proof -
  have m: "int (nat m) = m" using assms(1) by simp
  have "0 < nat m" using assms(1) by simp
  from minibatches_are_chunks [OF this, of order] show ?thesis
    unfolding minibatches_def m assms(2) .
qed

lemma neg_div_neg_ceil:
  fixes a b :: int
  assumes "0 < b"
  shows "- (- a div b) = (a + b - 1) div b"
proof (cases "a mod b = 0")
  case True
  then have "b * (a div b) = a" by auto
  then have "a + b - 1 = b - 1 + b * (a div b)" by linarith
  then have "(a + b - 1) div b = (b - 1 + b * (a div b)) div b"
    by (rule arg_cong)
  also have "\<dots> = (b - 1) div b + a div b"
    using assms by (simp only: div_mult_self2) 
  also have "(b - 1) div b = 0"
    using assms by (simp add: div_pos_pos_trivial)
  finally show ?thesis
    using True assms by (simp add: zdiv_zminus1_eq_if)
next
  case False
  have "0 \<le> a mod b" using assms by (rule pos_mod_sign)
  moreover have "a mod b < b" using assms by (rule pos_mod_bound)
  ultimately have r: "0 < a mod b" "a mod b < b"
    using False by linarith+
  have "b * (a div b) + a mod b = a" by simp
  moreover have "b * (a div b + 1) = b * (a div b) + b" by (simp add: distrib_left)
  ultimately have "a + b - 1 = (a mod b - 1) + b * (a div b + 1)" by linarith
  then have "(a + b - 1) div b = ((a mod b - 1) + b * (a div b + 1)) div b"
    by (rule arg_cong)
  also have "\<dots> = (a mod b - 1) div b + (a div b + 1)"
    using assms by (simp only: div_mult_self2)
  also have "(a mod b - 1) div b = 0"
    using r by (simp add: div_pos_pos_trivial)
  finally show ?thesis
    using False assms by (simp add: zdiv_zminus1_eq_if)
qed

lemma ceiling_div_nat:
  assumes "0 < m"
  shows "nat \<lceil>real n / real m\<rceil> = (n + m - 1) div m"
proof -
  have "\<lceil>real n / real m\<rceil> = \<lceil>real_of_int (int n) / real_of_int (int m)\<rceil>"
    by simp
  also have "\<dots> = - (- int n div int m)"
    by (rule ceiling_divide_eq_div)
  also have "\<dots> = (int n + int m - 1) div int m"
    using assms by (intro neg_div_neg_ceil) simp
  finally show ?thesis
    using assms by (simp add: nat_ceil_div)
qed

lemma length_concat_uniform:
  "(\<And>x. x \<in> set xs \<Longrightarrow> length x = c) \<Longrightarrow> length (concat xs) = length xs * c"
  by (induction xs) simp_all

lemma update_calls_chunks:
  assumes N: "int N = size_buf buffer * num_envs buffer"
    and m: "int m = mini_batch_size self" "0 < m"
    and perm: "\<And>g xs. mset (fst (shuffle ext g xs)) = mset xs"
  shows "map_sum id (\<lambda>(stats, self', buffer', g'). self') (update ext self buffer g) =
         map_sum id fst
           (calls_in_order ext (fst (make_dataset ext buffer))
              (concat (map (\<lambda>k. chunks m (epoch_order ext [0..<N] g k))
                         [0..<nat (update_epochs self)])) self)"
proof -
  let ?order = "epoch_order ext [0..<N] g"
  have ar: "np_arange (size_buf buffer * num_envs buffer) = [0..<N]"
    using N by (simp add: np_arange_def flip: N)
  have ord_len: "length (?order k) = N" for k
    using epoch_order_length [OF perm, of "[0..<N]" g k] by simp
  have nm: "nat (mini_batch_size self) = m" and pos: "0 < mini_batch_size self"
    using m by linarith+
  have mb: "minibatches (size_buf buffer * num_envs buffer) (mini_batch_size self) (?order k)
              = chunks m (?order k)" for k
    using minibatches_chunks [OF pos, of "?order k" "size_buf buffer * num_envs buffer"]
    by (simp only: nm ord_len N)
  from update_calls [OF pos, of ext buffer g] show ?thesis
    unfolding ar mb .
qed

lemma schedule_count:
  assumes m: "0 < m"
    and perm: "\<And>g xs. mset (fst (shuffle ext g xs)) = mset xs"
  shows "length (concat (map (\<lambda>k. chunks m (epoch_order ext [0..<N] g k)) [0..<n]))
           = n * nat \<lceil>real N / real m\<rceil>"
proof -
  have "length (chunks m (epoch_order ext [0..<N] g k)) = nat \<lceil>real N / real m\<rceil>" for k
    using epoch_order_length [OF perm, of "[0..<N]" g k]
    by (simp add: length_chunks [OF m] ceiling_div_nat [OF m])
  then show ?thesis
    using length_concat_uniform
      [of "map (\<lambda>k. chunks m (epoch_order ext [0..<N] g k)) [0..<n]" "nat \<lceil>real N / real m\<rceil>"]
    by auto
qed

lemma update_Inr_calls:
  assumes u: "update ext self buffer g = Inr (stats, self', buffer', g')"
    and N: "int N = size_buf buffer * num_envs buffer"
    and m: "int m = mini_batch_size self" "0 < m"
    and perm: "\<And>g xs. mset (fst (shuffle ext g xs)) = mset xs"
  shows "\<exists>rets. calls_in_order ext (fst (make_dataset ext buffer))
              (concat (map (\<lambda>k. chunks m (epoch_order ext [0..<N] g k))
                         [0..<nat (update_epochs self)])) self = Inr (self', rets)"
proof -
  let ?calls = "calls_in_order ext (fst (make_dataset ext buffer))
              (concat (map (\<lambda>k. chunks m (epoch_order ext [0..<N] g k))
                         [0..<nat (update_epochs self)])) self"
  have "map_sum id fst ?calls = Inr self'"
    using update_calls_chunks [OF N m perm, of g] by (simp add: u)
  then show ?thesis
    by (cases ?calls) auto
qed

lemma load_train_step: "train_step (load ext self files) = train_step self"
  by (simp add: load_def Let_def)

lemma ortho_init_train_step: "train_step (fst (ortho_init ext self g)) = train_step self"
  by (simp add: ortho_init_def Let_def split: prod.splits)

lemma init_train_step:
  "train_step (fst (init ext v a opt cr vcr vc ec ue mbs g)) = 0"
  by (simp add: init_def ortho_init_train_step)

subsection \<open>The schedule of the minibatches\<close>

text \<open>
  Claim C2. Let the dataset have \<open>N = buffer.size * buffer.num_envs\<close> elements and let
  \<open>m = mini_batch_size\<close> be positive. \<open>update\<close> makes exactly \<open>update_epochs\<close> passes; the
  pass \<open>k\<close> takes a permutation of the indices \<open>0, \<dots>, N - 1\<close> (what the shuffles have made
  of \<^verbatim>\<open>np.arange\<close>) and cuts it into consecutive minibatches of size \<open>m\<close>, the last one
  possibly smaller and none empty, so that every index occurs exactly once in the pass and
  the pass has \<open>\<lceil>N / m\<rceil>\<close> minibatches. \<open>update_step\<close> is called once for each minibatch, in
  order: the agent that \<open>update\<close> leaves (or the error it raises) is that of these
  \<open>update_epochs * \<lceil>N / m\<rceil>\<close> calls. The shuffle is any function that permutes its
  argument.
\<close>

theorem update_minibatch_schedule:
  assumes N: "int N = size_buf buffer * num_envs buffer"
    and m: "int m = mini_batch_size self" "0 < m"
    and perm: "\<And>g xs. mset (fst (shuffle ext g xs)) = mset xs"
    and sched: "sched = map (\<lambda>k. chunks m (epoch_order ext [0..<N] g k))
                          [0..<nat (update_epochs self)]"
  shows "length sched = nat (update_epochs self)
     \<and> (\<forall>ep \<in> set sched.
           (\<exists>order. mset order = mset [0..<N] \<and> ep = chunks m order)
         \<and> mset (concat ep) = mset [0..<N]
         \<and> length ep = nat \<lceil>real N / real m\<rceil>
         \<and> (\<forall>j. Suc j < length ep \<longrightarrow> length (ep ! j) = m)
         \<and> (\<forall>c \<in> set ep. 0 < length c \<and> length c \<le> m))
     \<and> length (concat sched) = nat (update_epochs self) * nat \<lceil>real N / real m\<rceil>
     \<and> map_sum id (\<lambda>(stats, self', buffer', g'). self') (update ext self buffer g) =
         map_sum id fst
           (calls_in_order ext (fst (make_dataset ext buffer)) (concat sched) self)"
proof -
  let ?order = "epoch_order ext [0..<N] g"
  have ar: "np_arange (size_buf buffer * num_envs buffer) = [0..<N]"
    using N by (simp add: np_arange_def flip: N)
  have ord_mset: "mset (?order k) = mset [0..<N]" for k
    using perm by (rule epoch_order_mset)
  have ord_len: "length (?order k) = N" for k
    using epoch_order_length [OF perm, of "[0..<N]" g k] by simp
  have ep: "(\<exists>order. mset order = mset [0..<N] \<and> ep = chunks m order)
         \<and> mset (concat ep) = mset [0..<N]
         \<and> length ep = nat \<lceil>real N / real m\<rceil>
         \<and> (\<forall>j. Suc j < length ep \<longrightarrow> length (ep ! j) = m)
         \<and> (\<forall>c \<in> set ep. 0 < length c \<and> length c \<le> m)" if "ep \<in> set sched" for ep
  proof -
    from that obtain k where e: "ep = chunks m (?order k)"
      unfolding sched by auto
    have 1: "\<exists>order. mset order = mset [0..<N] \<and> ep = chunks m order"
      using e ord_mset by blast
    have 2: "mset (concat ep) = mset [0..<N]"
      unfolding e concat_chunks [OF m(2)] by (rule ord_mset)
    have 3: "length ep = nat \<lceil>real N / real m\<rceil>"
      unfolding e by (simp only: length_chunks [OF m(2)] ord_len ceiling_div_nat [OF m(2)])
    have 4: "\<forall>j. Suc j < length ep \<longrightarrow> length (ep ! j) = m"
      unfolding e using chunks_full [OF m(2)] by blast
    have 5: "\<forall>c \<in> set ep. 0 < length c \<and> length c \<le> m"
      unfolding e using chunks_sizes [OF m(2)] by blast
    from 1 2 3 4 5 show ?thesis by blast
  qed
  have len: "length sched = nat (update_epochs self)"
    unfolding sched by simp
  have cnt: "length (concat sched) = nat (update_epochs self) * nat \<lceil>real N / real m\<rceil>"
    using length_concat_uniform [of sched "nat \<lceil>real N / real m\<rceil>"] ep len by simp
  have nm: "nat (mini_batch_size self) = m" and pos: "0 < mini_batch_size self"
    using m by linarith+
  have mb: "minibatches (size_buf buffer * num_envs buffer) (mini_batch_size self) (?order k)
              = chunks m (?order k)" for k
    using minibatches_chunks [OF pos, of "?order k" "size_buf buffer * num_envs buffer"]
    by (simp only: nm ord_len N)
  have "mini_batch_size self > 0" using m by simp
  from update_calls [OF this, of ext buffer g]
  have link: "map_sum id (\<lambda>(stats, self', buffer', g'). self') (update ext self buffer g) =
         map_sum id fst
           (calls_in_order ext (fst (make_dataset ext buffer)) (concat sched) self)"
    unfolding ar mb sched .
  from len ep cnt link show ?thesis by blast
qed

lemma example_shuffle_permutes: "mset (fst (shuffle example_ext g xs)) = mset xs"
  by (simp add: example_ext_def)

lemma example_schedule:
  "map (\<lambda>k. chunks 3 (epoch_order example_ext [0..<4] 0 k)) [0..<nat 2]
     = [[[3, 2, 1], [0]], [[0, 1, 2], [3]]]"
  by (simp add: epoch_order_def example_ext_def chunks.simps eval_nat_numeral)

theorem update_minibatch_schedule_witness:
  "int 4 = size_buf example_buffer * num_envs example_buffer
   \<and> int 3 = mini_batch_size small_agent \<and> (0 :: nat) < 3
   \<and> (\<forall>g xs. mset (fst (shuffle example_ext g xs)) = mset xs)
   \<and> map (\<lambda>k. chunks 3 (epoch_order example_ext [0..<4] 0 k)) [0..<nat 2]
       = [[[3, 2, 1], [0]], [[0, 1, 2], [3]]]
   \<and> length (concat [[[3, 2, 1], [0]], [[0, 1, 2], [3 :: nat]]]) = nat 2 * nat \<lceil>real 4 / real 3\<rceil>
   \<and> map_sum id (\<lambda>(stats, self', buffer', g'). self') (update example_ext small_agent example_buffer 0) =
         map_sum id fst
           (calls_in_order example_ext (fst (make_dataset example_ext example_buffer))
              [[3, 2, 1], [0], [0, 1, 2], [3]] small_agent)"
proof -
  have N: "int 4 = size_buf example_buffer * num_envs example_buffer"
    by (simp add: example_buffer_def)
  have m: "int 3 = mini_batch_size small_agent" "(0 :: nat) < 3"
    by (simp_all add: small_agent_def example_agent_def)
  have e: "update_epochs small_agent = 2"
    by (simp add: small_agent_def example_agent_def)
  have s: "[[[3, 2, 1], [0]], [[0, 1, 2], [3]]] =
      map (\<lambda>k. chunks 3 (epoch_order example_ext [0..<4] 0 k)) [0..<nat (update_epochs small_agent)]"
    unfolding e by (rule example_schedule [symmetric])
  from update_minibatch_schedule [OF N m example_shuffle_permutes s]
  have "length (concat [[[3, 2, 1], [0]], [[0, 1, 2], [3 :: nat]]])
          = nat (update_epochs small_agent) * nat \<lceil>real 4 / real 3\<rceil>"
    and "map_sum id (\<lambda>(stats, self', buffer', g'). self') (update example_ext small_agent example_buffer 0) =
         map_sum id fst
           (calls_in_order example_ext (fst (make_dataset example_ext example_buffer))
              (concat [[[3, 2, 1], [0]], [[0, 1, 2], [3]]]) small_agent)"
    by blast+
  with N m example_shuffle_permutes example_schedule show ?thesis
    unfolding e by simp
qed

subsection \<open>The update on the example\<close>

lemma example_forward_loss_pair:
  assumes "clip_range self = 1 / 5" and "value_coef self = 1 / 2"
    and "value_clip_range self = None" and "entropy_coef self = 1 / 100"
  shows "forward_loss example_ext self
     ([a, b], [c, d], [Some 0, Some 0], [Some 0, Some 0], [Some 1, Some 1], [Some 1, Some 1]) nets
   = Inr (Some 0, Some 1, Some (- 1), Some (49 / 100))"
  using assms
  by (simp add: forward_loss_def example_ext_def
      get_new_log_prob_entropy_value_def normalize_advantage_def normalize_divisor_def
      torch_std_def torch_mean_def get_clipped_surrogate_loss_def get_value_loss_def
      get_entropy_loss_def broadcast2_def torch_min_def torch_exp_def torch_clamp_def
      scalar_defs Let_def)

lemma example_update_step_pair:
  assumes "clip_range self = 1 / 5" and "value_coef self = 1 / 2"
    and "value_clip_range self = None" and "entropy_coef self = 1 / 100"
  shows "update_step example_ext self
     ([a, b], [c, d], [Some 0, Some 0], [Some 0, Some 0], [Some 1, Some 1], [Some 1, Some 1])
   = Inr (self\<lparr>optimizer := optimizer self + 1, train_step := train_step self + 1\<rparr>,
          \<lparr>policy_loss = Some 0, value_loss = Some 1, entropy_loss = Some (- 1)\<rparr>)"
  by (simp add: update_step_def example_forward_loss_pair [OF assms])
     (simp add: example_ext_def)

lemma example_update:
  "update example_ext pair_agent example_buffer 0 =
     Inr (\<lparr>policy_loss = Some 0, value_loss = Some 1, entropy_loss = Some (- 1)\<rparr>,
          pair_agent\<lparr>optimizer := 4, train_step := 4\<rparr>, example_buffer, 2)"
proof -
  have sh: "shuffle example_ext g xs = (rev xs, g + 1)" for g xs
    by (simp add: example_ext_def)
  have md: "make_dataset example_ext b = (example_dataset, b)" for b
    by (simp add: example_ext_def)
  have coef: "clip_range pair_agent = 1 / 5" "value_coef pair_agent = 1 / 2"
    "value_clip_range pair_agent = None" "entropy_coef pair_agent = 1 / 100"
    "mini_batch_size pair_agent = 2" "update_epochs pair_agent = 2"
    "optimizer pair_agent = 0" "train_step pair_agent = 0"
    by (simp_all add: pair_agent_def example_agent_def)
  show ?thesis
    by (simp add: update_def Let_def sh md example_buffer_def np_arange_def py_range_def
        py_slice_def slice_bound_def make_batch_def index_select_def example_dataset_def
        example_update_step_pair coef np_mean_def eval_nat_numeral)
qed

subsection \<open>The step counter\<close>

text \<open>
  Claim C10. Every call of \<open>update_step\<close> that returns increments \<open>train_step\<close> by exactly
  \<open>1\<close>, and the other operations that return an agent, \<open>load\<close> and \<open>ortho_init\<close>, leave it
  as it is; so the counter never decreases, and a call of \<open>update\<close> that returns has
  advanced it by exactly \<open>update_epochs * \<lceil>N / m\<rceil>\<close>, where \<open>N = buffer.size *
  buffer.num_envs\<close> and \<open>m = mini_batch_size\<close> is positive, \<open>update_epochs\<close> is not negative
  and the shuffle permutes its argument.
\<close>

theorem train_step_counts_update_steps:
  assumes u: "update ext self buffer g = Inr (stats, self', buffer', g')"
    and N: "int N = size_buf buffer * num_envs buffer"
    and m: "int m = mini_batch_size self" "0 < m"
    and E: "0 \<le> update_epochs self"
    and perm: "\<And>g xs. mset (fst (shuffle ext g xs)) = mset xs"
  shows "train_step self' = train_step self + update_epochs self * \<lceil>real N / real m\<rceil>
     \<and> train_step self \<le> train_step self'
     \<and> (\<forall>batch s r. update_step ext self batch = Inr (s, r) \<longrightarrow> train_step s = train_step self + 1)
     \<and> (\<forall>files. train_step (load ext self files) = train_step self)
     \<and> (\<forall>a h. train_step (fst (ortho_init ext a h)) = train_step a)"
proof -
  obtain rets where c: "calls_in_order ext (fst (make_dataset ext buffer))
              (concat (map (\<lambda>k. chunks m (epoch_order ext [0..<N] g k))
                         [0..<nat (update_epochs self)])) self = Inr (self', rets)"
    using update_Inr_calls [OF u N m perm] by blast
  have ceil: "0 \<le> \<lceil>real N / real m\<rceil>"
  proof -
    have "0 \<le> real N / real m" by simp
    then have "- 1 < real N / real m" by linarith
    then show ?thesis by simp
  qed
  have "train_step self' = train_step self
          + int (nat (update_epochs self) * nat \<lceil>real N / real m\<rceil>)"
    using calls_in_order_fields [OF c] schedule_count [OF m(2) perm, of N g "nat (update_epochs self)"]
    by simp
  then have 1: "train_step self' = train_step self + update_epochs self * \<lceil>real N / real m\<rceil>"
    using E ceil by (simp add: nat_mult_distrib [symmetric])
  then have 2: "train_step self \<le> train_step self'"
    using E ceil by simp
  have 3: "\<forall>batch s r. update_step ext self batch = Inr (s, r) \<longrightarrow> train_step s = train_step self + 1"
    using update_step_fields(1) by blast
  from 1 2 3 show ?thesis
    by (simp add: load_train_step ortho_init_train_step)
qed

theorem train_step_counts_update_steps_witness:
  "update example_ext pair_agent example_buffer 0 =
     Inr (\<lparr>policy_loss = Some 0, value_loss = Some 1, entropy_loss = Some (- 1)\<rparr>,
          pair_agent\<lparr>optimizer := 4, train_step := 4\<rparr>, example_buffer, 2)
   \<and> int 4 = size_buf example_buffer * num_envs example_buffer
   \<and> int 2 = mini_batch_size pair_agent \<and> (0 :: nat) < 2
   \<and> 0 \<le> update_epochs pair_agent
   \<and> (\<forall>g xs. mset (fst (shuffle example_ext g xs)) = mset xs)
   \<and> train_step (pair_agent\<lparr>optimizer := 4, train_step := 4\<rparr>)
        = train_step pair_agent + update_epochs pair_agent * \<lceil>real 4 / real 2\<rceil>
   \<and> train_step pair_agent + update_epochs pair_agent * \<lceil>real 4 / real 2\<rceil> = 4"
proof -
  have N: "int 4 = size_buf example_buffer * num_envs example_buffer"
    by (simp add: example_buffer_def)
  have m: "int 2 = mini_batch_size pair_agent" "(0 :: nat) < 2"
    by (simp_all add: pair_agent_def example_agent_def)
  have E: "0 \<le> update_epochs pair_agent"
    by (simp add: pair_agent_def example_agent_def)
  have "train_step (pair_agent\<lparr>optimizer := 4, train_step := 4\<rparr>)
        = train_step pair_agent + update_epochs pair_agent * \<lceil>real 4 / real 2\<rceil>"
    using train_step_counts_update_steps [OF example_update N m E example_shuffle_permutes]
    by blast
  moreover have "train_step pair_agent + update_epochs pair_agent * \<lceil>real 4 / real 2\<rceil> = 4"
    by (simp add: pair_agent_def example_agent_def)
  ultimately show ?thesis
    using example_update N m E example_shuffle_permutes by blast
qed

subsection \<open>The returned statistics\<close>

lemma epoch_loop_append:
  "epoch_loop ext ds buffer_size (es @ es') st =
     bind (epoch_loop ext ds buffer_size es st) (epoch_loop ext ds buffer_size es')"
proof (induction es arbitrary: st)
  case Nil
  show ?case by simp
next
  case (Cons e es)
  obtain self indices g L where st: "st = (self, indices, g, L)" by (cases st) auto
  obtain i1 g1 where s: "shuffle ext g indices = (i1, g1)" by (cases "shuffle ext g indices")
  show ?case
  proof (cases "py_range 0 buffer_size (mini_batch_size self)")
    case (Inl err)
    then show ?thesis by (simp add: st s)
  next
    case r: (Inr starts)
    show ?thesis
    proof (cases "minibatch_loop ext ds i1 e starts (self, L)")
      case (Inl err)
      with r show ?thesis by (simp add: st s)
    next
      case (Inr q)
      obtain self1 L1 where q: "q = (self1, L1)" by (cases q) auto
      with r Inr Cons.IH [of "(self1, i1, g1, L1)"] show ?thesis
        by (simp add: st s)
    qed
  qed
qed

lemma epoch_loop_step:
  assumes "0 < mini_batch_size self"
  shows "epoch_loop ext ds buffer_size (e # es) (self, indices, g, (pl, vl, el)) =
      bind (calls_in_order ext ds
              (minibatches buffer_size (mini_batch_size self) (fst (shuffle ext g indices))) self)
        (\<lambda>(self1, rets).
          epoch_loop ext ds buffer_size es
            (self1, fst (shuffle ext g indices), snd (shuffle ext g indices),
             if e = update_epochs self - 1
             then (pl @ map policy_loss rets, vl @ map value_loss rets, el @ map entropy_loss rets)
             else (pl, vl, el)))"
proof -
  obtain i1 g1 where s: "shuffle ext g indices = (i1, g1)" by (cases "shuffle ext g indices")
  show ?thesis
    using assms
    by (cases "calls_in_order ext ds (minibatches buffer_size (mini_batch_size self) i1) self")
       (auto simp: s py_range_positive minibatch_loop_calls minibatches_def)
qed

lemma epoch_loop_fields:
  assumes "0 < mini_batch_size self"
    and "epoch_loop ext ds buffer_size es (self, indices, g, L) = Inr (self', indices', g', L')"
  shows "update_epochs self' = update_epochs self
       \<and> mini_batch_size self' = mini_batch_size self
       \<and> (indices', g') = shuffle_n ext (length es) indices g
       \<and> ((\<forall>e \<in> set es. e \<noteq> update_epochs self - 1) \<longrightarrow> L' = L)"
  using assms
proof (induction es arbitrary: self indices g L)
  case Nil
  then show ?case by simp
next
  case (Cons e es)
  obtain pl vl el where L: "L = (pl, vl, el)" by (cases L) auto
  obtain i1 g1 where s: "shuffle ext g indices = (i1, g1)" by (cases "shuffle ext g indices")
  from Cons.prems(2) obtain self1 rets where
    c: "calls_in_order ext ds (minibatches buffer_size (mini_batch_size self) i1) self = Inr (self1, rets)"
    and r: "epoch_loop ext ds buffer_size es
            (self1, i1, g1,
             if e = update_epochs self - 1
             then (pl @ map policy_loss rets, vl @ map value_loss rets, el @ map entropy_loss rets)
             else (pl, vl, el)) = Inr (self', indices', g', L')"
    unfolding L epoch_loop_step [OF Cons.prems(1)] s by (auto simp: bind_eq_Inr)
  have f: "mini_batch_size self1 = mini_batch_size self" "update_epochs self1 = update_epochs self"
    using calls_in_order_fields [OF c] by simp_all
  have pos: "0 < mini_batch_size self1"
    using f Cons.prems(1) by simp
  from Cons.IH [OF pos r] f show ?case
    by (auto simp: s L)
qed

lemma epoch_loop_last:
  assumes "0 < mini_batch_size self"
    and "epoch_loop ext ds buffer_size [update_epochs self - 1] (self, indices, g, ([], [], []))
           = Inr (self', indices', g', L')"
  shows "\<exists>rets.
      calls_in_order ext ds
        (minibatches buffer_size (mini_batch_size self) (fst (shuffle ext g indices))) self
        = Inr (self', rets)
    \<and> L' = (map policy_loss rets, map value_loss rets, map entropy_loss rets)"
  using assms(2) unfolding epoch_loop_step [OF assms(1)]
  by (auto simp: bind_eq_Inr)

lemma epochs_split:
  assumes "1 \<le> E"
  shows "map int [0..<nat E] = map int [0..<nat (E - 1)] @ [E - 1]"
proof -
  have "nat E = Suc (nat (E - 1))" using assms by linarith
  then show ?thesis using assms by simp
qed

lemma np_mean_numbers:
  "vs \<noteq> [] \<Longrightarrow> np_mean (map Some vs) = Some (sum_list vs / real (length vs))"
  by (simp add: np_mean_def those_map_Some)

lemma those_None: "None \<in> set xs \<Longrightarrow> those xs = None"
  by (induction xs) (auto split: option.splits)

lemma np_mean_nan: "None \<in> set xs \<or> xs = [] \<Longrightarrow> np_mean xs = None"
  by (auto simp: np_mean_def those_None)

lemma np_mean_map_nan:
  assumes "(\<exists>r \<in> set rs. f r = None) \<or> rs = []"
  shows "np_mean (map f rs) = None"
proof (rule np_mean_nan)
  show "None \<in> set (map f rs) \<or> map f rs = []"
    using assms by force
qed

text \<open>
  Claim C9. The statistics that \<open>update\<close> returns are the arithmetic means (\<^verbatim>\<open>np.mean\<close>) of
  the policy, value and entropy losses of the calls of \<open>update_step\<close> in the final epoch,
  the one with index \<open>update_epochs - 1\<close>, and of nothing else: with \<open>self_mid\<close> the agent
  that the calls of the earlier epochs leave, the calls of the final epoch on \<open>self_mid\<close>
  return the dictionaries \<open>rets\<close>, one for each minibatch of that epoch, and each of the
  three statistics is the sum of the corresponding losses of \<open>rets\<close> divided by their
  number when these losses are numbers, and NaN when one of them is NaN or there is none.
  The dictionaries of the earlier epochs do not occur. There is a final epoch when
  \<open>update_epochs \<ge> 1\<close>.
\<close>

theorem update_returns_final_epoch_means:
  assumes u: "update ext self buffer g = Inr (stats, self', buffer', g')"
    and E: "1 \<le> update_epochs self"
    and m: "0 < mini_batch_size self"
  shows "\<exists>self_mid rets.
       map_sum id fst
         (calls_in_order ext (fst (make_dataset ext buffer))
            (concat (map (\<lambda>k. minibatches (size_buf buffer * num_envs buffer) (mini_batch_size self)
                         (epoch_order ext (np_arange (size_buf buffer * num_envs buffer)) g k))
                      [0..<nat (update_epochs self - 1)])) self) = Inr self_mid
     \<and> calls_in_order ext (fst (make_dataset ext buffer))
            (minibatches (size_buf buffer * num_envs buffer) (mini_batch_size self)
               (epoch_order ext (np_arange (size_buf buffer * num_envs buffer)) g
                  (nat (update_epochs self - 1)))) self_mid = Inr (self', rets)
     \<and> stats = \<lparr>policy_loss = np_mean (map policy_loss rets),
                 value_loss = np_mean (map value_loss rets),
                 entropy_loss = np_mean (map entropy_loss rets)\<rparr>
     \<and> length rets =
         length (minibatches (size_buf buffer * num_envs buffer) (mini_batch_size self)
                   (epoch_order ext (np_arange (size_buf buffer * num_envs buffer)) g
                      (nat (update_epochs self - 1))))
     \<and> (\<forall>ps. map policy_loss rets = map Some ps \<and> ps \<noteq> [] \<longrightarrow>
            policy_loss stats = Some (sum_list ps / real (length ps)))
     \<and> (\<forall>vs. map value_loss rets = map Some vs \<and> vs \<noteq> [] \<longrightarrow>
            value_loss stats = Some (sum_list vs / real (length vs)))
     \<and> (\<forall>es. map entropy_loss rets = map Some es \<and> es \<noteq> [] \<longrightarrow>
            entropy_loss stats = Some (sum_list es / real (length es)))
     \<and> ((\<exists>r \<in> set rets. policy_loss r = None) \<or> rets = [] \<longrightarrow> policy_loss stats = None)
     \<and> ((\<exists>r \<in> set rets. value_loss r = None) \<or> rets = [] \<longrightarrow> value_loss stats = None)
     \<and> ((\<exists>r \<in> set rets. entropy_loss r = None) \<or> rets = [] \<longrightarrow> entropy_loss stats = None)"
proof -
  let ?N = "size_buf buffer * num_envs buffer"
  let ?ds = "fst (make_dataset ext buffer)"
  let ?es0 = "map int [0..<nat (update_epochs self - 1)]"
  let ?st0 = "(self, np_arange ?N, g, ([], [], []))"
  from u obtain i' pls vls els where
    loop: "epoch_loop ext ?ds ?N (map int [0..<nat (update_epochs self)]) ?st0
             = Inr (self', i', g', (pls, vls, els))"
    and stats: "stats = \<lparr>policy_loss = np_mean pls, value_loss = np_mean vls,
                          entropy_loss = np_mean els\<rparr>"
    by (auto simp: update_def Let_def py_range_epochs bind_eq_Inr split: prod.splits)
  from loop obtain st1 where
    first: "epoch_loop ext ?ds ?N ?es0 ?st0 = Inr st1"
    and last: "epoch_loop ext ?ds ?N [update_epochs self - 1] st1 = Inr (self', i', g', (pls, vls, els))"
    unfolding epochs_split [OF E] epoch_loop_append by (auto simp: bind_eq_Inr)
  obtain self_mid i_mid g_mid L_mid where st1: "st1 = (self_mid, i_mid, g_mid, L_mid)"
    by (cases st1) auto
  have early: "\<forall>e \<in> set ?es0. e \<noteq> update_epochs self - 1"
    by auto
  from epoch_loop_fields [OF m first [unfolded st1]] early
  have f: "update_epochs self_mid = update_epochs self"
    "mini_batch_size self_mid = mini_batch_size self"
    "(i_mid, g_mid) = shuffle_n ext (nat (update_epochs self - 1)) (np_arange ?N) g"
    "L_mid = ([], [], [])"
    by simp_all
  have order: "fst (shuffle ext g_mid i_mid)
                 = epoch_order ext (np_arange ?N) g (nat (update_epochs self - 1))"
    unfolding epoch_order_def shuffle_n_Suc_end f(3) [symmetric] by simp
  have pos: "0 < mini_batch_size self_mid" using f(2) m by simp
  from epoch_loop_last [OF pos, of ext ?ds ?N i_mid g_mid self' i' g' "(pls, vls, els)"]
    last [unfolded st1 f(4)] f(1)
  obtain rets where
    c: "calls_in_order ext ?ds
          (minibatches ?N (mini_batch_size self_mid) (fst (shuffle ext g_mid i_mid))) self_mid
        = Inr (self', rets)"
    and L: "(pls, vls, els) = (map policy_loss rets, map value_loss rets, map entropy_loss rets)"
    by auto
  have mid: "map_sum id fst
         (calls_in_order ext ?ds
            (concat (map (\<lambda>k. minibatches ?N (mini_batch_size self)
                         (epoch_order ext (np_arange ?N) g k))
                      [0..<nat (update_epochs self - 1)])) self) = Inr self_mid"
    using epoch_loop_calls [OF m, of ext ?ds ?N ?es0 "np_arange ?N" g "([], [], [])"]
    by (simp add: first st1)
  have st: "stats = \<lparr>policy_loss = np_mean (map policy_loss rets),
                 value_loss = np_mean (map value_loss rets),
                 entropy_loss = np_mean (map entropy_loss rets)\<rparr>"
    using L stats by simp
  have len: "length rets =
         length (minibatches ?N (mini_batch_size self)
                   (epoch_order ext (np_arange ?N) g (nat (update_epochs self - 1))))"
    using calls_in_order_fields [OF c] by (simp add: order f(2))
  have P: "\<forall>ps. map policy_loss rets = map Some ps \<and> ps \<noteq> [] \<longrightarrow>
            policy_loss stats = Some (sum_list ps / real (length ps))"
    by (simp add: st np_mean_numbers)
  have V: "\<forall>vs. map value_loss rets = map Some vs \<and> vs \<noteq> [] \<longrightarrow>
            value_loss stats = Some (sum_list vs / real (length vs))"
    by (simp add: st np_mean_numbers)
  have H: "\<forall>es. map entropy_loss rets = map Some es \<and> es \<noteq> [] \<longrightarrow>
            entropy_loss stats = Some (sum_list es / real (length es))"
    by (simp add: st np_mean_numbers)
  have NP: "(\<exists>r \<in> set rets. policy_loss r = None) \<or> rets = [] \<longrightarrow> policy_loss stats = None"
    using np_mean_map_nan [of rets] by (simp add: st)
  have NV: "(\<exists>r \<in> set rets. value_loss r = None) \<or> rets = [] \<longrightarrow> value_loss stats = None"
    using np_mean_map_nan [of rets] by (simp add: st)
  have NH: "(\<exists>r \<in> set rets. entropy_loss r = None) \<or> rets = [] \<longrightarrow> entropy_loss stats = None"
    using np_mean_map_nan [of rets] by (simp add: st)
  show ?thesis
    using mid c [unfolded order f(2)] st len P V H NP NV NH by blast
qed


lemma counting_update_step:
  assumes "clip_range self = 1 / 5" and "value_coef self = 1 / 2"
    and "value_clip_range self = None" and "entropy_coef self = 1 / 100"
  shows "update_step counting_ext self
     ([a, b], [c, d], [Some 0, Some 0], [Some 0, Some 0], [Some 1, Some 1], [Some 0, Some 0])
   = Inr (self\<lparr>actor_net := actor_net self + 1, value_net := value_net self + 1,
               optimizer := optimizer self + 1, train_step := train_step self + 1\<rparr>,
          \<lparr>policy_loss = Some 0, value_loss = Some ((real_of_int (value_net self)) ^ 2),
           entropy_loss = Some (- real_of_int (actor_net self))\<rparr>)"
proof -
  have f: "forward_loss counting_ext self
     ([a, b], [c, d], [Some 0, Some 0], [Some 0, Some 0], [Some 1, Some 1], [Some 0, Some 0]) nets
   = Inr (Some 0, Some ((real_of_int (snd nets)) ^ 2), Some (- real_of_int (fst nets)),
          Some (0 + 1 / 2 * (real_of_int (snd nets)) ^ 2 + 1 / 100 * (- real_of_int (fst nets))))"
    for nets
    by (simp add: assms forward_loss_def counting_ext_def
        get_new_log_prob_entropy_value_def normalize_advantage_def normalize_divisor_def
        torch_std_def torch_mean_def get_clipped_surrogate_loss_def get_value_loss_def
        get_entropy_loss_def broadcast2_def torch_min_def torch_exp_def torch_clamp_def
        scalar_defs Let_def)
  show ?thesis
    by (simp add: update_step_def f) (simp add: counting_ext_def)
qed

lemma counting_update:
  "update counting_ext counting_agent example_buffer 0 =
     Inr (\<lparr>policy_loss = Some 0, value_loss = Some (13 / 2), entropy_loss = Some (- (5 / 2))\<rparr>,
          counting_agent\<lparr>actor_net := 4, value_net := 4, optimizer := 4, train_step := 4\<rparr>,
          example_buffer, 2)"
proof -
  have sh: "shuffle counting_ext g xs = (rev xs, g + 1)" for g xs
    by (simp add: counting_ext_def)
  have md: "make_dataset counting_ext b = (counting_dataset, b)" for b
    by (simp add: counting_ext_def)
  have coef: "clip_range counting_agent = 1 / 5" "value_coef counting_agent = 1 / 2"
    "value_clip_range counting_agent = None" "entropy_coef counting_agent = 1 / 100"
    "mini_batch_size counting_agent = 2" "update_epochs counting_agent = 2"
    "optimizer counting_agent = 0" "train_step counting_agent = 0"
    "actor_net counting_agent = 0" "value_net counting_agent = 0"
    by (simp_all add: counting_agent_def)
  show ?thesis
    by (simp add: update_def Let_def sh md example_buffer_def np_arange_def py_range_def
        py_slice_def slice_bound_def make_batch_def index_select_def counting_dataset_def
        counting_update_step coef np_mean_def eval_nat_numeral)
qed


lemma counting_schedule:
  "minibatches (size_buf example_buffer * num_envs example_buffer) (mini_batch_size counting_agent)
     (epoch_order counting_ext (np_arange (size_buf example_buffer * num_envs example_buffer)) 0 0)
     = [[3, 2], [1, 0]]"
  "minibatches (size_buf example_buffer * num_envs example_buffer) (mini_batch_size counting_agent)
     (epoch_order counting_ext (np_arange (size_buf example_buffer * num_envs example_buffer)) 0
        (nat (update_epochs counting_agent - 1)))
     = [[0, 1], [2, 3]]"
  "concat (map (\<lambda>k. minibatches (size_buf example_buffer * num_envs example_buffer)
                       (mini_batch_size counting_agent)
                       (epoch_order counting_ext
                          (np_arange (size_buf example_buffer * num_envs example_buffer)) 0 k))
             [0..<nat (update_epochs counting_agent - 1)])
     = [[3, 2], [1, 0]]"
  by (simp_all add: minibatches_def epoch_order_def counting_ext_def counting_agent_def
      example_buffer_def np_arange_def py_slice_def slice_bound_def eval_nat_numeral)

lemma counting_first_epoch:
  "calls_in_order counting_ext counting_dataset [[3, 2], [1, 0]] counting_agent =
     Inr (counting_agent\<lparr>actor_net := 2, value_net := 2, optimizer := 2, train_step := 2\<rparr>,
          [\<lparr>policy_loss = Some 0, value_loss = Some 0, entropy_loss = Some 0\<rparr>,
           \<lparr>policy_loss = Some 0, value_loss = Some 1, entropy_loss = Some (- 1)\<rparr>])"
  by (simp add: make_batch_def index_select_def counting_dataset_def counting_update_step
      counting_agent_def eval_nat_numeral)

lemma counting_final_epoch:
  "calls_in_order counting_ext counting_dataset [[0, 1], [2, 3]]
     (counting_agent\<lparr>actor_net := 2, value_net := 2, optimizer := 2, train_step := 2\<rparr>) =
     Inr (counting_agent\<lparr>actor_net := 4, value_net := 4, optimizer := 4, train_step := 4\<rparr>,
          [\<lparr>policy_loss = Some 0, value_loss = Some 4, entropy_loss = Some (- 2)\<rparr>,
           \<lparr>policy_loss = Some 0, value_loss = Some 9, entropy_loss = Some (- 3)\<rparr>])"
  by (simp add: make_batch_def index_select_def counting_dataset_def counting_update_step
      counting_agent_def eval_nat_numeral)

theorem update_returns_final_epoch_means_witness:
  "update counting_ext counting_agent example_buffer 0 =
     Inr (\<lparr>policy_loss = Some 0, value_loss = Some (13 / 2), entropy_loss = Some (- (5 / 2))\<rparr>,
          counting_agent\<lparr>actor_net := 4, value_net := 4, optimizer := 4, train_step := 4\<rparr>,
          example_buffer, 2)
   \<and> 1 \<le> update_epochs counting_agent \<and> 0 < mini_batch_size counting_agent
   \<and> (\<exists>self_mid rets.
         calls_in_order counting_ext (fst (make_dataset counting_ext example_buffer))
           [[3, 2], [1, 0]] counting_agent
           = Inr (self_mid,
                  [\<lparr>policy_loss = Some 0, value_loss = Some 0, entropy_loss = Some 0\<rparr>,
                   \<lparr>policy_loss = Some 0, value_loss = Some 1, entropy_loss = Some (- 1)\<rparr>])
       \<and> calls_in_order counting_ext (fst (make_dataset counting_ext example_buffer))
           [[0, 1], [2, 3]] self_mid
           = Inr (counting_agent\<lparr>actor_net := 4, value_net := 4, optimizer := 4, train_step := 4\<rparr>,
                  rets)
       \<and> map policy_loss rets = [Some 0, Some 0]
       \<and> map value_loss rets = [Some 4, Some 9]
       \<and> map entropy_loss rets = [Some (- 2), Some (- 3)]
       \<and> Some (13 / 2) = Some (sum_list [4, 9] / real (length [4, 9 :: real]))
       \<and> Some (- (5 / 2)) = Some (sum_list [- 2, - 3] / real (length [- 2, - 3 :: real])))"
proof -
  let ?stats = "\<lparr>policy_loss = Some 0, value_loss = Some (13 / 2), entropy_loss = Some (- (5 / 2))\<rparr>"
  let ?mid = "counting_agent\<lparr>actor_net := 2, value_net := 2, optimizer := 2, train_step := 2\<rparr>"
  let ?end = "counting_agent\<lparr>actor_net := 4, value_net := 4, optimizer := 4, train_step := 4\<rparr>"
  have E: "1 \<le> update_epochs counting_agent" and m: "0 < mini_batch_size counting_agent"
    by (simp_all add: counting_agent_def)
  have ds: "fst (make_dataset counting_ext example_buffer) = counting_dataset"
    by (simp add: counting_ext_def)
  note T = update_returns_final_epoch_means [OF counting_update E m, unfolded ds counting_schedule]
  from T obtain self_mid rets where
    mid: "map_sum id fst
            (calls_in_order counting_ext counting_dataset [[3, 2], [1, 0]] counting_agent)
          = Inr self_mid"
    and fin: "calls_in_order counting_ext counting_dataset [[0, 1], [2, 3]] self_mid
          = Inr (?end, rets)"
    and V: "\<forall>vs. map value_loss rets = map Some vs \<and> vs \<noteq> [] \<longrightarrow>
               value_loss ?stats = Some (sum_list vs / real (length vs))"
    and H: "\<forall>es. map entropy_loss rets = map Some es \<and> es \<noteq> [] \<longrightarrow>
               entropy_loss ?stats = Some (sum_list es / real (length es))"
    by (elim exE conjE) (rule that; assumption)
  from mid [unfolded counting_first_epoch] have sm: "self_mid = ?mid"
    by simp
  from fin have rets: "rets =
       [\<lparr>policy_loss = Some 0, value_loss = Some 4, entropy_loss = Some (- 2)\<rparr>,
        \<lparr>policy_loss = Some 0, value_loss = Some 9, entropy_loss = Some (- 3)\<rparr>]"
    unfolding sm counting_final_epoch by simp
  have v: "Some (13 / 2) = Some (sum_list [4, 9] / real (length [4, 9 :: real]))"
    using V [rule_format, of "[4, 9]"] by (simp add: rets)
  have h: "Some (- (5 / 2)) = Some (sum_list [- 2, - 3] / real (length [- 2, - 3 :: real]))"
    using H [rule_format, of "[- 2, - 3]"] by (simp add: rets)
  have first: "calls_in_order counting_ext (fst (make_dataset counting_ext example_buffer))
           [[3, 2], [1, 0]] counting_agent
           = Inr (?mid,
                  [\<lparr>policy_loss = Some 0, value_loss = Some 0, entropy_loss = Some 0\<rparr>,
                   \<lparr>policy_loss = Some 0, value_loss = Some 1, entropy_loss = Some (- 1)\<rparr>])"
    unfolding ds by (rule counting_first_epoch)
  have final: "calls_in_order counting_ext (fst (make_dataset counting_ext example_buffer))
           [[0, 1], [2, 3]] ?mid = Inr (?end, rets)"
    unfolding ds rets by (rule counting_final_epoch)
  have lists: "map policy_loss rets = [Some 0, Some 0]" "map value_loss rets = [Some 4, Some 9]"
    "map entropy_loss rets = [Some (- 2), Some (- 3)]"
    by (simp_all add: rets)
  show ?thesis
    by (intro conjI exI [of _ ?mid] exI [of _ rets])
       (fact counting_update E m first final lists v h)+
qed

subsection \<open>What the update does to the buffer and its dataset\<close>







section \<open>Properties of the orthogonal initialisation\<close>

lemma init_weights_Container [simp]:
  "init_weights ext gain (Container ms) h = (Container ms, h)"
  by (simp add: init_weights_def)

lemma apply_initialises:
  "apply_module (init_weights ext gain) m h = (m', h') \<Longrightarrow> initialised ext gain m m'"
  "apply_children (init_weights ext gain) ms h = (ms', h') \<Longrightarrow>
     list_all2 (initialised ext gain) ms ms'"
proof (induction "init_weights ext gain" m h and "init_weights ext gain" ms h
    arbitrary: m' h' and ms' h' rule: apply_module_apply_children.induct)
  case (1 ms g)
  obtain ms1 g1 where c: "apply_children (init_weights ext gain) ms g = (ms1, g1)"
    by (cases "apply_children (init_weights ext gain) ms g")
  from 1(2) have "m' = Container ms1"
    by (simp add: c)
  with 1(1) [OF c] show ?case
    by (simp add: init_Container)
next
  case (2 w b g)
  then have "m' = Linear (fst (orthogonal ext w gain g)) (map_option (map (\<lambda>_. Some 0)) b)"
    by (auto simp: init_weights_def case_prod_beta)
  then show ?case
    by (simp add: init_Linear)
next
  case (3 w b g)
  then have "m' = Conv2d (fst (orthogonal ext w gain g)) (map_option (map (\<lambda>_. Some 0)) b)"
    by (auto simp: init_weights_def case_prod_beta)
  then show ?case
    by (simp add: init_Conv2d)
next
  case (4 g)
  then show ?case
    by (simp add: init_weights_def init_Other)
next
  case (5 g)
  then show ?case by simp
next
  case (6 m ms g)
  obtain m1 g1 where a: "apply_module (init_weights ext gain) m g = (m1, g1)"
    by (cases "apply_module (init_weights ext gain) m g")
  obtain ms1 g2 where c: "apply_children (init_weights ext gain) ms g1 = (ms1, g2)"
    by (cases "apply_children (init_weights ext gain) ms g1")
  from 6(3) have "ms' = m1 # ms1"
    by (simp add: a c)
  with 6(1) [OF a] 6(2) [OF a [symmetric] refl c] show ?case
    by simp
qed

lemma apply_container:
  assumes "apply_module (init_weights ext gain) (Container ms) h = (m', h')"
  shows "list_all2 (initialised ext gain) ms (children m')"
proof -
  obtain ms1 g1 where c: "apply_children (init_weights ext gain) ms h = (ms1, g1)"
    by (cases "apply_children (init_weights ext gain) ms h")
  from assms have "m' = Container ms1"
    by (simp add: c)
  with apply_initialises(2) [OF c] show ?thesis
    by (simp add: children_def)
qed

lemma take_drop_append_all2:
  assumes "list_all2 P (take n xs) ys" and "list_all2 Q (drop n xs) zs"
  shows "list_all2 P (take n xs) (take n (ys @ zs)) \<and> list_all2 Q (drop n xs) (drop n (ys @ zs))"
proof -
  have l: "length ys = min (length xs) n"
    using list_all2_lengthD [OF assms(1)] by simp
  show ?thesis
  proof (cases "n \<le> length xs")
    case True
    with l have "length ys = n" by simp
    with assms show ?thesis by simp
  next
    case False
    with l have ys: "length ys = length xs" and "drop n xs = []" by simp_all
    with assms(2) have "zs = []" by simp
    with assms ys False show ?thesis by simp
  qed
qed

lemma init_runs_ortho_init:
  "init ext value actor opt cr vcr vc ec ue mbs g =
     ortho_init ext
       \<lparr>actor_net = actor, value_net = value, optimizer = opt, clip_range = cr,
        value_coef = vc, value_clip_range = vcr, entropy_coef = ec, update_epochs = ue,
        mini_batch_size = mbs, train_step = 0\<rparr> g"
  by (simp add: init_def)

text \<open>
  Claim C7. \<open>ortho_init\<close>, which the constructor runs last, orthogonally initialises
  every \<^verbatim>\<open>Linear\<close> or \<^verbatim>\<open>Conv2d\<close> module of the two layer stacks: with the gain \<open>sqrt 2\<close> in
  the first four entries of the stack \<^verbatim>\<open>fcs\<close> of each network, with the gain \<open>0.01\<close> in the
  remaining entries of the actor's stack and with the gain \<open>1\<close> in the remaining entries
  of the value network's; and it sets the bias of every such module to zeros. The rest of
  the two networks is left as it is.
\<close>

theorem ortho_init_gains:
  assumes "ortho_init ext self g = (self', g')"
  shows "list_all2 (initialised ext (sqrt 2))
           (take 4 (fcs (actor_net self))) (take 4 (fcs (actor_net self')))
       \<and> list_all2 (initialised ext (1 / 100))
           (drop 4 (fcs (actor_net self))) (drop 4 (fcs (actor_net self')))
       \<and> list_all2 (initialised ext (sqrt 2))
           (take 4 (fcs (value_net self))) (take 4 (fcs (value_net self')))
       \<and> list_all2 (initialised ext 1)
           (drop 4 (fcs (value_net self))) (drop 4 (fcs (value_net self')))
       \<and> net.more (actor_net self') = net.more (actor_net self)
       \<and> net.more (value_net self') = net.more (value_net self)"
proof -
  let ?af = "fcs (actor_net self)" and ?vf = "fcs (value_net self)"
  obtain a1 g1 where a1: "apply_module (init_weights ext (sqrt 2)) (Container (take 4 ?af)) g = (a1, g1)"
    by (cases "apply_module (init_weights ext (sqrt 2)) (Container (take 4 ?af)) g")
  obtain v1 g2 where v1: "apply_module (init_weights ext (sqrt 2)) (Container (take 4 ?vf)) g1 = (v1, g2)"
    by (cases "apply_module (init_weights ext (sqrt 2)) (Container (take 4 ?vf)) g1")
  obtain a2 g3 where a2: "apply_module (init_weights ext (1 / 100)) (Container (drop 4 ?af)) g2 = (a2, g3)"
    by (cases "apply_module (init_weights ext (1 / 100)) (Container (drop 4 ?af)) g2")
  obtain v2 g4 where v2: "apply_module (init_weights ext 1) (Container (drop 4 ?vf)) g3 = (v2, g4)"
    by (cases "apply_module (init_weights ext 1) (Container (drop 4 ?vf)) g3")
  have self': "self' = self\<lparr>actor_net := (actor_net self)\<lparr>fcs := children a1 @ children a2\<rparr>,
                            value_net := (value_net self)\<lparr>fcs := children v1 @ children v2\<rparr>\<rparr>"
    using assms by (simp add: ortho_init_def Let_def a1 v1 a2 v2 del: apply_module.simps)
  have A: "list_all2 (initialised ext (sqrt 2)) (take 4 ?af) (take 4 (children a1 @ children a2))
         \<and> list_all2 (initialised ext (1 / 100)) (drop 4 ?af) (drop 4 (children a1 @ children a2))"
    using apply_container [OF a1] apply_container [OF a2] by (rule take_drop_append_all2)
  have V: "list_all2 (initialised ext (sqrt 2)) (take 4 ?vf) (take 4 (children v1 @ children v2))
         \<and> list_all2 (initialised ext 1) (drop 4 ?vf) (drop 4 (children v1 @ children v2))"
    using apply_container [OF v1] apply_container [OF v2] by (rule take_drop_append_all2)
  from A V show ?thesis
    by (simp add: self')
qed

lemma example_ortho_init:
  "ortho_init example_ext example_net_agent 0 = (example_net_agent_initialised, 6)"
  by (simp add: ortho_init_def example_net_agent_def example_net_agent_initialised_def
      example_ext_def init_weights_def children_def Let_def)

theorem ortho_init_gains_witness:
  "ortho_init example_ext example_net_agent 0 = (example_net_agent_initialised, 6)
   \<and> list_all2 (initialised example_ext (sqrt 2))
         (take 4 (fcs (actor_net example_net_agent)))
         (take 4 (fcs (actor_net example_net_agent_initialised)))
   \<and> list_all2 (initialised example_ext (1 / 100))
         (drop 4 (fcs (actor_net example_net_agent)))
         (drop 4 (fcs (actor_net example_net_agent_initialised)))
   \<and> list_all2 (initialised example_ext (sqrt 2))
         (take 4 (fcs (value_net example_net_agent)))
         (take 4 (fcs (value_net example_net_agent_initialised)))
   \<and> list_all2 (initialised example_ext 1)
         (drop 4 (fcs (value_net example_net_agent)))
         (drop 4 (fcs (value_net example_net_agent_initialised)))"
  using ortho_init_gains [OF example_ortho_init] example_ortho_init by blast

end
